theory Spec2Isabelle
  imports Main "HOL-Library.Multiset"
begin

section \<open>Global Connect: messaging, connections and notifications\<close>

text \<open>
  A shallow embedding of the message model (the schema, methods and statics of
  \<open>Message\<close>), the routes under \<open>/api/messages\<close>, the connection routes of
  routes/users.js with the methods of models/User.js they call, the route that creates a
  notification, and the reducers of the client's notification slice.

  Object ids are kept in the textual form that \<open>toString()\<close> yields. Where the source
  compares two results of \<open>toString()\<close>, or one with a parameter of the request, the
  model compares the strings; where the source hands a string to a query, the model casts
  it as Mongoose does. Dates are milliseconds since the epoch. Strings are
  lists of characters. A field of a request body is a string or absent: it is an
  \<open>option\<close>, \<open>None\<close> standing for \<open>undefined\<close>, and the handlers' \<open>typeof\<close> tests
  on a field that is present always pass. A handler's answer is the status and message of
  its response with the store after the request; what it emits on the socket changes no
  state and is left out, and so is \<open>populate\<close>, which only decorates the documents
  of an answer.
\<close>

type_synonym oid = string
type_synonym timestamp = int

subsection \<open>Strings and object ids\<close>

text \<open>
  \<open>String.prototype.trim\<close> strips white space from both ends; the white-space characters
  that fit in a \<open>char\<close> are TAB, LF, VT, FF, CR, SP and NBSP.
\<close>

definition isWhiteSpace :: "char \<Rightarrow> bool" where
  "isWhiteSpace c \<longleftrightarrow> of_char c \<in> set [9, 10, 11, 12, 13, 32, 160 :: nat]"

definition trim :: "string \<Rightarrow> string" where
  "trim s = rev (dropWhile isWhiteSpace (rev (dropWhile isWhiteSpace s)))"

text \<open>In a condition, \<open>undefined\<close> and the empty string are falsy, every other string truthy.\<close>

fun truthy :: "string option \<Rightarrow> bool" where
  "truthy None = False"
| "truthy (Some s) = (s \<noteq> [])"

definition toLowerCase :: "char \<Rightarrow> char" where
  "toLowerCase c =
     (if 65 \<le> (of_char c :: nat) \<and> (of_char c :: nat) \<le> 90 then char_of (of_char c + 32 :: nat) else c)"

text \<open>The test \<open>/^https?:\/\//i\<close>.\<close>

definition isHttpUrl :: "string \<Rightarrow> bool" where
  "isHttpUrl s \<longleftrightarrow>
     take 7 (map toLowerCase s) = ''http://'' \<or> take 8 (map toLowerCase s) = ''https://''"

text \<open>
  An object id in text is 24 hexadecimal digits; \<open>toString()\<close> writes them in lower case,
  and casting a string to an object id reads either case. A query with a string that is
  not an object id throws a \<open>CastError\<close>.
\<close>

definition isHexDigit :: "char \<Rightarrow> bool" where
  "isHexDigit c \<longleftrightarrow> c \<in> set ''0123456789abcdefABCDEF''"

definition ObjectId_isValid :: "string \<Rightarrow> bool" where
  "ObjectId_isValid s \<longleftrightarrow> length s = 24 \<and> list_all isHexDigit s"

definition castObjectId :: "string \<Rightarrow> oid" where
  "castObjectId s = map toLowerCase s"

subsection \<open>The message document\<close>

text \<open>
  The sub-documents of \<open>deletedBy\<close> and \<open>reactions\<close>, and the message. Of the two
  timestamps of the schema, \<open>createdAt\<close> is kept; \<open>updatedAt\<close>, which a save of a
  changed document renews, is read by nothing here and is left out.
\<close>

record deletion =
  d_userId :: oid
  d_deletedAt :: timestamp

record reaction =
  r_userId :: oid
  r_emoji :: string
  r_createdAt :: timestamp

record message =
  mid :: oid
  senderId :: oid
  receiverId :: oid
  content :: string
  messageType :: string
  mediaUrl :: "string option"
  isRead :: bool
  readAt :: "timestamp option"
  isDeleted :: bool
  deletedAt :: "timestamp option"
  deletedBy :: "deletion list"
  replyTo :: "oid option"
  reactions :: "reaction list"
  createdAt :: timestamp

subsection \<open>Reactions\<close>

text \<open>
  \<open>Array.prototype.find\<close> returns the first element satisfying the predicate, and the
  assignment to \<open>existingReaction\<close> mutates that element where it stands in the array.
\<close>

fun update_first :: "('a \<Rightarrow> bool) \<Rightarrow> ('a \<Rightarrow> 'a) \<Rightarrow> 'a list \<Rightarrow> 'a list" where
  "update_first P f [] = []"
| "update_first P f (x # xs) = (if P x then f x # xs else x # update_first P f xs)"

definition addReaction :: "oid \<Rightarrow> string \<Rightarrow> timestamp \<Rightarrow> message \<Rightarrow> message" where
  "addReaction userId emoji now m =
     (case find (\<lambda>r. r_userId r = userId) (reactions m) of
        Some existingReaction \<Rightarrow>
          m\<lparr>reactions :=
              update_first (\<lambda>r. r_userId r = userId)
                (\<lambda>r. r\<lparr>r_emoji := emoji, r_createdAt := now\<rparr>) (reactions m)\<rparr>
      | None \<Rightarrow>
          m\<lparr>reactions :=
              reactions m @ [\<lparr>r_userId = userId, r_emoji = emoji, r_createdAt = now\<rparr>]\<rparr>)"

definition removeReaction :: "oid \<Rightarrow> message \<Rightarrow> message" where
  "removeReaction userId m =
     m\<lparr>reactions := filter (\<lambda>r. r_userId r \<noteq> userId) (reactions m)\<rparr>"

text \<open>The reaction requests that reach a message, in their order.\<close>

datatype reaction_op = React oid string timestamp | Unreact oid

fun apply_reaction_ops :: "message \<Rightarrow> reaction_op list \<Rightarrow> message" where
  "apply_reaction_ops m [] = m"
| "apply_reaction_ops m (React userId emoji now # ops) =
     apply_reaction_ops (addReaction userId emoji now m) ops"
| "apply_reaction_ops m (Unreact userId # ops) = apply_reaction_ops (removeReaction userId m) ops"

text \<open>The reaction entries of one user on a message.\<close>

definition reactionsOf :: "oid \<Rightarrow> message \<Rightarrow> reaction list" where
  "reactionsOf userId m = filter (\<lambda>r. r_userId r = userId) (reactions m)"

subsection \<open>The message log\<close>

text \<open>
  The collection is the list of its documents. Mongoose casts the ids of a filter to
  object ids before it compares them with the stored ones, and the query throws a
  \<open>CastError\<close> (\<open>None\<close> here) when one of them is not an object id.
  \<open>limit(0)\<close> asks MongoDB for no limit. The query sorts by \<open>createdAt\<close>, newest
  first; the order among documents of one \<open>createdAt\<close> is the store's choice, here the
  order of the collection.
\<close>

definition between :: "oid \<Rightarrow> oid \<Rightarrow> message \<Rightarrow> bool" where
  "between user1Id user2Id m \<longleftrightarrow>
     (senderId m = user1Id \<and> receiverId m = user2Id) \<or>
     (senderId m = user2Id \<and> receiverId m = user1Id)"

definition limit_docs :: "nat \<Rightarrow> 'a list \<Rightarrow> 'a list" where
  "limit_docs n xs = (if n = 0 then xs else take n xs)"

definition getConversation ::
    "message list \<Rightarrow> string \<Rightarrow> string \<Rightarrow> nat \<Rightarrow> nat \<Rightarrow> message list option" where
  "getConversation log user1Id user2Id limit skip =
     (if \<not> ObjectId_isValid user1Id \<or> \<not> ObjectId_isValid user2Id then None
      else Some (limit_docs limit (drop skip (sort_key (\<lambda>m. - createdAt m)
             (filter (\<lambda>m. between (castObjectId user1Id) (castObjectId user2Id) m
                          \<and> isDeleted m = False) log)))))"

text \<open>
  \<open>updateMany\<close> rewrites every document that matches the filter and reports how many it
  modified; every matching document has \<open>isRead = false\<close>, so each one is modified.
  The ids of the filter are cast as those of every query; when one of them is not an
  object id the query throws before anything is written, and no document is modified.
\<close>

definition unreadFrom :: "oid \<Rightarrow> oid \<Rightarrow> message \<Rightarrow> bool" where
  "unreadFrom user1Id user2Id m \<longleftrightarrow>
     senderId m = user2Id \<and> receiverId m = user1Id \<and> isRead m = False \<and> isDeleted m = False"

definition markConversationAsRead ::
    "message list \<Rightarrow> string \<Rightarrow> string \<Rightarrow> timestamp \<Rightarrow> nat \<times> message list" where
  "markConversationAsRead log user1Id user2Id now =
     (if \<not> ObjectId_isValid user1Id \<or> \<not> ObjectId_isValid user2Id then (0, log)
      else
        (length (filter (unreadFrom (castObjectId user1Id) (castObjectId user2Id)) log),
         map (\<lambda>m. if unreadFrom (castObjectId user1Id) (castObjectId user2Id) m
                  then m\<lparr>isRead := True, readAt := Some now\<rparr> else m)
           log))"

text \<open>
  \<open>DELETE /api/messages/:id\<close>: the soft delete. \<open>findById\<close> yields the document with
  that id, and throws on a string that is not an object id (the handler's \<open>catch\<close>
  answers 500); the answer is the HTTP status with the log after the request.
\<close>

fun update_doc :: "oid \<Rightarrow> (message \<Rightarrow> message) \<Rightarrow> message list \<Rightarrow> message list" where
  "update_doc i f [] = []"
| "update_doc i f (m # ms) = (if mid m = i then f m # ms else m # update_doc i f ms)"

definition deleteMessage :: "message list \<Rightarrow> oid \<Rightarrow> string \<Rightarrow> timestamp \<Rightarrow> nat \<times> message list" where
  "deleteMessage log currentUserId messageId now =
     (if \<not> ObjectId_isValid messageId then (500, log) else
      case find (\<lambda>m. mid m = castObjectId messageId) log of
        None \<Rightarrow> (404, log)
      | Some m \<Rightarrow>
          if senderId m \<noteq> currentUserId \<and> receiverId m \<noteq> currentUserId then (403, log)
          else (200, update_doc (castObjectId messageId)
                  (\<lambda>m. m\<lparr>isDeleted := True, deletedAt := Some now,
                         deletedBy := deletedBy m @ [\<lparr>d_userId = currentUserId, d_deletedAt = now\<rparr>]\<rparr>)
                  log))"

text \<open>
  The visibility rule in the specification's words: a message is shown to a viewer when it
  is not deleted, or when only the other party deleted it.
\<close>

definition visible_to_spec :: "oid \<Rightarrow> message \<Rightarrow> bool" where
  "visible_to_spec viewer m \<longleftrightarrow>
     isDeleted m = False \<or>
     (deletedBy m \<noteq> [] \<and> list_all (\<lambda>d. d_userId d \<noteq> viewer) (deletedBy m))"

subsection \<open>Users, notifications and the store\<close>

record connectionRequest =
  cr_from :: oid
  cr_sentAt :: timestamp

record sentRequest =
  sr_to :: oid
  sr_sentAt :: timestamp

record user =
  uid :: oid
  name :: string
  role :: string
  isActive :: bool
  connections :: "oid list"
  connectionRequests :: "connectionRequest list"
  sentRequests :: "sentRequest list"

text \<open>
  Modelled from the spec: the Notification model (models/Notification.js is not among the
  sources). A notification has the fields of the specification's data model; its \<open>type\<close>
  is one of the enumerated types, \<open>title\<close> and \<open>message\<close> are required, and the
  recipient is an object id. \<open>Notification.create\<close> stores a valid document with
  \<open>isRead = false\<close> and throws on an invalid one.
\<close>

record notification =
  n_recipientId :: oid
  n_senderId :: oid
  n_type :: string
  n_title :: string
  n_message :: string
  n_data :: "(string \<times> string) list"
  n_isRead :: bool
  n_createdAt :: timestamp

definition notificationTypes :: "string list" where
  "notificationTypes =
     [''CONNECTION_REQUEST'', ''CONNECTION_ACCEPTED'', ''MESSAGE'', ''POST_FROM_CONNECTION'',
      ''POST_LIKE'', ''POST_COMMENT'', ''POST_SHARED'', ''JOB_APPLICATION'',
      ''JOB_APPLICATION_UPDATE'']"

definition Notification_validate :: "notification \<Rightarrow> bool" where
  "Notification_validate n \<longleftrightarrow>
     ObjectId_isValid (n_recipientId n) \<and> n_type n \<in> set notificationTypes \<and>
     n_title n \<noteq> [] \<and> n_message n \<noteq> []"

record db =
  users :: "user list"
  messages :: "message list"
  notifications :: "notification list"

text \<open>
  The handlers create notifications inside \<open>try/catch\<close>: a failure is logged and
  swallowed, and the request goes on.
\<close>

definition Notification_create :: "notification \<Rightarrow> db \<Rightarrow> db" where
  "Notification_create n d =
     (if Notification_validate n
      then d\<lparr>notifications := notifications d @ [n\<lparr>n_recipientId := castObjectId (n_recipientId n)\<rparr>]\<rparr>
      else d)"

definition User_findById :: "db \<Rightarrow> string \<Rightarrow> user option" where
  "User_findById d i = find (\<lambda>u. uid u = castObjectId i) (users d)"

text \<open>
  The collections are the lists of their documents. \<open>save()\<close> writes the paths of a
  document that the handler changed. A handler runs from its first line to its last
  before the next request is served, so the change is a function applied to the stored
  document with the id.
\<close>

definition update_user :: "oid \<Rightarrow> (user \<Rightarrow> user) \<Rightarrow> db \<Rightarrow> db" where
  "update_user i f d = d\<lparr>users := update_first (\<lambda>u. uid u = i) f (users d)\<rparr>"

definition isConnectedTo :: "user \<Rightarrow> string \<Rightarrow> bool" where
  "isConnectedTo u userId \<longleftrightarrow> list_ex (\<lambda>i. i = userId) (connections u)"

definition hasSentRequestTo :: "user \<Rightarrow> string \<Rightarrow> bool" where
  "hasSentRequestTo u userId \<longleftrightarrow> list_ex (\<lambda>r. sr_to r = userId) (sentRequests u)"

definition hasReceivedRequestFrom :: "user \<Rightarrow> string \<Rightarrow> bool" where
  "hasReceivedRequestFrom u userId \<longleftrightarrow> list_ex (\<lambda>r. cr_from r = userId) (connectionRequests u)"

definition getConnectionStatus :: "user \<Rightarrow> string \<Rightarrow> string" where
  "getConnectionStatus u userId =
     (if isConnectedTo u userId then ''connected''
      else if hasSentRequestTo u userId then ''requested''
      else if hasReceivedRequestFrom u userId then ''pending''
      else ''none'')"

type_synonym response = "nat \<times> string"

subsection \<open>The connection routes\<close>

fun findIndex :: "('a \<Rightarrow> bool) \<Rightarrow> 'a list \<Rightarrow> nat option" where
  "findIndex P [] = None"
| "findIndex P (x # xs) =
     (if P x then Some 0 else (case findIndex P xs of None \<Rightarrow> None | Some i \<Rightarrow> Some (Suc i)))"

text \<open>\<open>xs.splice(i, 1)\<close> removes the element at index \<open>i\<close>.\<close>

definition splice1 :: "nat \<Rightarrow> 'a list \<Rightarrow> 'a list" where
  "splice1 i xs = take i xs @ drop (Suc i) xs"

definition nameOr :: "string \<Rightarrow> string \<Rightarrow> string" where
  "nameOr n dflt = (if n \<noteq> [] then n else dflt)"

text \<open>
  \<open>POST /api/users/connect/:id\<close>, with \<open>req.user\<close> the document of the authenticated
  user. The answer is the status and message of the response with the store after the
  request.
\<close>

definition sendConnectionRequest :: "db \<Rightarrow> user \<Rightarrow> string \<Rightarrow> timestamp \<Rightarrow> response \<times> db" where
  "sendConnectionRequest d reqUser targetUserId now =
     (let currentUserId = uid reqUser in
      if targetUserId = [] \<or> \<not> ObjectId_isValid targetUserId then ((400, ''Invalid user ID''), d)
      else if currentUserId = targetUserId then ((400, ''Cannot connect with yourself''), d)
      else
        (case User_findById d targetUserId of
           None \<Rightarrow> ((404, ''User not found''), d)
         | Some targetUser \<Rightarrow>
             if \<not> isActive targetUser then ((404, ''User not found''), d)
             else if isConnectedTo reqUser targetUserId then ((200, ''Already connected''), d)
             else if hasSentRequestTo reqUser targetUserId
                       \<or> hasReceivedRequestFrom targetUser currentUserId
               then ((200, ''Connection request already pending''), d)
             else if hasReceivedRequestFrom reqUser targetUserId
               then ((200, ''User has already sent you a connection request''), d)
             else
               (let d1 = update_user (uid targetUser)
                           (\<lambda>u. u\<lparr>connectionRequests := connectionRequests u
                                      @ [\<lparr>cr_from = currentUserId, cr_sentAt = now\<rparr>]\<rparr>) d;
                    d2 = update_user currentUserId
                           (\<lambda>u. u\<lparr>sentRequests := sentRequests u
                                      @ [\<lparr>sr_to = castObjectId targetUserId, sr_sentAt = now\<rparr>]\<rparr>) d1;
                    d3 = Notification_create
                           \<lparr>n_recipientId = targetUserId, n_senderId = currentUserId,
                            n_type = ''CONNECTION_REQUEST'', n_title = ''New connection request'',
                            n_message = nameOr (name reqUser) ''Someone''
                                          @ '' sent you a connection request'',
                            n_data = [(''from'', currentUserId)], n_isRead = False,
                            n_createdAt = now\<rparr> d2
                in ((200, ''Connection request sent successfully''), d3))))"

text \<open>
  \<open>PUT /api/users/connect/:id\<close> with the \<open>action\<close> of the body. The receiver's request
  entry is spliced out for both actions; only \<open>accept\<close> loads the sender and filters the
  sender's \<open>sentRequests\<close>. The receiver is saved last. When the accepted request is
  the user's own, \<open>requestUser\<close> and \<open>req.user\<close> are two copies of one document:
  the second save meets the version the first one wrote and throws a \<open>VersionError\<close>,
  and the handler answers 500 with the first save and the notification kept.
\<close>

definition respondToConnectionRequest ::
    "db \<Rightarrow> user \<Rightarrow> string \<Rightarrow> string option \<Rightarrow> timestamp \<Rightarrow> response \<times> db" where
  "respondToConnectionRequest d reqUser requestUserId action now =
     (let currentUserId = uid reqUser in
      if action \<noteq> Some ''accept'' \<and> action \<noteq> Some ''reject'' then ((400, ''Invalid action''), d)
      else
        (case findIndex (\<lambda>r. cr_from r = requestUserId) (connectionRequests reqUser) of
           None \<Rightarrow>
             if isConnectedTo reqUser requestUserId then ((200, ''Already connected''), d)
             else ((200, ''No pending connection request from this user''), d)
         | Some requestIndex \<Rightarrow>
             if action = Some ''accept'' then
               (if \<not> ObjectId_isValid requestUserId then ((500, ''Server error''), d)
                else
                  (let d1 = (case User_findById d requestUserId of
                               None \<Rightarrow> d
                             | Some requestUser \<Rightarrow>
                                 update_user (uid requestUser)
                                   (\<lambda>u. u\<lparr>connections :=
                                             (if \<not> isConnectedTo u currentUserId
                                              then connections u @ [currentUserId]
                                              else connections u),
                                           sentRequests :=
                                             filter (\<lambda>r. sr_to r \<noteq> currentUserId) (sentRequests u)\<rparr>)
                                   d);
                       d2 = Notification_create
                              \<lparr>n_recipientId = requestUserId, n_senderId = currentUserId,
                               n_type = ''CONNECTION_ACCEPTED'',
                               n_title = ''Connection request accepted'',
                               n_message = nameOr (name reqUser) ''Your connection''
                                             @ '' accepted your request'',
                               n_data = [(''acceptedBy'', currentUserId)], n_isRead = False,
                               n_createdAt = now\<rparr> d1;
                       sameDocument = (case User_findById d requestUserId of
                                         None \<Rightarrow> False
                                       | Some requestUser \<Rightarrow> uid requestUser = currentUserId);
                       d3 = update_user currentUserId
                              (\<lambda>u. u\<lparr>connectionRequests :=
                                        splice1 requestIndex (connectionRequests reqUser),
                                      connections :=
                                        (if \<not> isConnectedTo reqUser requestUserId
                                         then connections reqUser @ [castObjectId requestUserId]
                                         else connections reqUser)\<rparr>) d2
                   in if sameDocument then ((500, ''Server error''), d2)
                      else ((200, ''Connection request accepted successfully''), d3)))
             else
               ((200, ''Connection request rejected successfully''),
                update_user currentUserId
                  (\<lambda>u. u\<lparr>connectionRequests :=
                            splice1 requestIndex (connectionRequests reqUser)\<rparr>) d)))"

text \<open>\<open>DELETE /api/users/connect/:id\<close>.\<close>

definition removeConnection :: "db \<Rightarrow> user \<Rightarrow> string \<Rightarrow> response \<times> db" where
  "removeConnection d reqUser targetUserId =
     (let currentUserId = uid reqUser in
      if \<not> ObjectId_isValid targetUserId then ((500, ''Server error''), d)
      else
        (let d1 = (case User_findById d targetUserId of
                     None \<Rightarrow> d
                   | Some targetUser \<Rightarrow>
                       update_user (uid targetUser)
                         (\<lambda>u. u\<lparr>connections := filter (\<lambda>i. i \<noteq> currentUserId) (connections u)\<rparr>) d);
             d2 = update_user currentUserId
                    (\<lambda>u. u\<lparr>connections :=
                              filter (\<lambda>i. i \<noteq> targetUserId) (connections reqUser)\<rparr>) d1
         in ((200, ''Connection removed successfully''), d2)))"

text \<open>A connection operation names the acting user and the user of the path parameter.\<close>

datatype connection_op =
    SendRequest oid oid
  | Accept oid oid
  | Reject oid oid
  | Remove oid oid

fun actor :: "connection_op \<Rightarrow> oid" where
  "actor (SendRequest a b) = a"
| "actor (Accept a b) = a"
| "actor (Reject a b) = a"
| "actor (Remove a b) = a"

fun handle :: "db \<Rightarrow> user \<Rightarrow> connection_op \<Rightarrow> timestamp \<Rightarrow> response \<times> db" where
  "handle d reqUser (SendRequest a b) now = sendConnectionRequest d reqUser b now"
| "handle d reqUser (Accept a b) now = respondToConnectionRequest d reqUser b (Some ''accept'') now"
| "handle d reqUser (Reject a b) now = respondToConnectionRequest d reqUser b (Some ''reject'') now"
| "handle d reqUser (Remove a b) now = removeConnection d reqUser b"

text \<open>
  Modelled from the spec: \<open>authenticateToken\<close> (middleware/auth.js is not among the
  sources) loads the user of the request's credential as \<open>req.user\<close>, and a request
  without such a user is answered 401 and never reaches the handler.
\<close>

definition request :: "db \<Rightarrow> connection_op \<Rightarrow> timestamp \<Rightarrow> response \<times> db" where
  "request d c now =
     (case find (\<lambda>u. uid u = actor c) (users d) of
        None \<Rightarrow> ((401, ''Unauthorized''), d)
      | Some reqUser \<Rightarrow> handle d reqUser c now)"

fun requests :: "db \<Rightarrow> connection_op list \<Rightarrow> timestamp \<Rightarrow> db" where
  "requests d [] now = d"
| "requests d (c # cs) now = requests (snd (request d c now)) cs (now + 1)"

text \<open>
  The states of a pair in the specification's words. A request from \<open>a\<close> to \<open>b\<close> is
  pending when the receiver's \<open>connectionRequests\<close> or the sender's \<open>sentRequests\<close>
  holds its entry; the pair is connected when each lists the other. The data model has
  \<open>sentRequests\<close> the mirror of the receiver's \<open>connectionRequests\<close>: an entry of
  \<open>a\<close>'s \<open>sentRequests\<close> for \<open>b\<close> has its mirror when \<open>b\<close>'s \<open>connectionRequests\<close>
  holds the entry from \<open>a\<close>.
\<close>

definition userOf :: "db \<Rightarrow> oid \<Rightarrow> user" where
  "userOf d i =
     (case find (\<lambda>u. uid u = i) (users d) of
        Some u \<Rightarrow> u
      | None \<Rightarrow> \<lparr>uid = i, name = [], role = ''user'', isActive = False, connections = [],
                 connectionRequests = [], sentRequests = []\<rparr>)"

definition mutuallyConnected :: "db \<Rightarrow> oid \<Rightarrow> oid \<Rightarrow> bool" where
  "mutuallyConnected d a b \<longleftrightarrow> isConnectedTo (userOf d a) b \<and> isConnectedTo (userOf d b) a"

definition pendingRequest :: "db \<Rightarrow> oid \<Rightarrow> oid \<Rightarrow> bool" where
  "pendingRequest d a b \<longleftrightarrow>
     hasSentRequestTo (userOf d a) b \<or> hasReceivedRequestFrom (userOf d b) a"

definition mirrored :: "db \<Rightarrow> oid \<Rightarrow> oid \<Rightarrow> bool" where
  "mirrored d a b \<longleftrightarrow>
     (hasSentRequestTo (userOf d a) b \<longrightarrow> hasReceivedRequestFrom (userOf d b) a)"

fun is_reject :: "connection_op \<Rightarrow> bool" where
  "is_reject (Reject a b) = True"
| "is_reject c = False"

definition statesOf :: "db \<Rightarrow> oid \<Rightarrow> oid \<Rightarrow> string list" where
  "statesOf d a b =
     (if mutuallyConnected d a b then [''connected''] else []) @
     (if pendingRequest d a b then [''a-to-b pending''] else []) @
     (if pendingRequest d b a then [''b-to-a pending''] else [])"

subsection \<open>The notification route\<close>

record notification_body =
  b_recipientId :: "string option"
  b_type :: "string option"
  b_title :: "string option"
  b_message :: "string option"
  b_data :: "(string \<times> string) list option"

definition validTypes :: "string list" where
  "validTypes =
     [''CONNECTION_REQUEST'', ''CONNECTION_ACCEPTED'', ''MESSAGE'', ''POST_FROM_CONNECTION'',
      ''JOB_APPLICATION'', ''JOB_APPLICATION_UPDATE'', ''POST_LIKE'', ''POST_COMMENT'',
      ''POST_SHARE'']"

fun array_includes :: "string list \<Rightarrow> string option \<Rightarrow> bool" where
  "array_includes xs None = False"
| "array_includes xs (Some x) = list_ex (\<lambda>y. y = x) xs"

text \<open>
  \<open>POST /api/notifications\<close>. A document that the model refuses makes \<open>save()\<close> throw,
  and the handler's \<open>catch\<close> answers 500. The answer to a success is the stored
  document; the response's message is then empty.
\<close>

definition createNotification ::
    "db \<Rightarrow> user \<Rightarrow> notification_body \<Rightarrow> timestamp \<Rightarrow> response \<times> db" where
  "createNotification d reqUser body now =
     (if \<not> truthy (b_recipientId body) then ((400, ''Valid recipient ID required''), d)
      else if \<not> array_includes validTypes (b_type body)
        then ((400, ''Valid notification type required''), d)
      else if \<not> truthy (b_title body) \<or> trim (the (b_title body)) = []
        then ((400, ''Title is required''), d)
      else if \<not> truthy (b_message body) \<or> trim (the (b_message body)) = []
        then ((400, ''Message is required''), d)
      else
        (let n = \<lparr>n_recipientId = the (b_recipientId body), n_senderId = uid reqUser,
                  n_type = the (b_type body), n_title = the (b_title body),
                  n_message = the (b_message body),
                  n_data = (case b_data body of None \<Rightarrow> [] | Some x \<Rightarrow> x),
                  n_isRead = False, n_createdAt = now\<rparr>
         in if Notification_validate n
            then ((201, []),
                  d\<lparr>notifications :=
                      notifications d @ [n\<lparr>n_recipientId := castObjectId (n_recipientId n)\<rparr>]\<rparr>)
            else ((500, ''Server error''), d)))"

subsection \<open>Sending a message\<close>

record message_body =
  mb_receiverId :: "string option"
  mb_content :: "string option"
  mb_messageType :: "string option"
  mb_mediaUrl :: "string option"
  mb_replyTo :: "string option"

definition messageTypes :: "string list" where
  "messageTypes = [''text'', ''image'', ''file'', ''link'']"

text \<open>
  The schema of the message model. \<open>content\<close> is required and at most 2000 characters,
  \<open>messageType\<close> is one of the enumerated types, \<open>replyTo\<close> is an object id.
  The validator of \<open>mediaUrl\<close> is the function of the schema; Mongoose runs the
  validators of a path on the values that are set, and only \<open>required\<close> on a value that
  is \<open>undefined\<close>, so the validator is asked about a \<open>mediaUrl\<close> that is present.
\<close>

definition mediaUrl_validator :: "message \<Rightarrow> string \<Rightarrow> bool" where
  "mediaUrl_validator this v = (if messageType this \<noteq> ''text'' \<and> v = [] then False else True)"

definition Message_validate :: "message \<Rightarrow> bool" where
  "Message_validate m \<longleftrightarrow>
     ObjectId_isValid (senderId m) \<and> ObjectId_isValid (receiverId m) \<and>
     content m \<noteq> [] \<and> length (content m) \<le> 2000 \<and>
     messageType m \<in> set messageTypes \<and>
     (case mediaUrl m of None \<Rightarrow> True | Some v \<Rightarrow> mediaUrl_validator m v) \<and>
     (case replyTo m of None \<Rightarrow> True | Some r \<Rightarrow> ObjectId_isValid r)"

text \<open>
  \<open>POST /api/messages\<close>; \<open>newId\<close> is the id the new document is given. The checks of
  the handler answer 400, a string that is not an object id makes \<open>findById\<close> throw
  (500), and so does a document the schema refuses; the notification for the receiver is
  created in its own \<open>try/catch\<close>.
\<close>

definition sendMessage ::
    "db \<Rightarrow> user \<Rightarrow> message_body \<Rightarrow> oid \<Rightarrow> timestamp \<Rightarrow> response \<times> db" where
  "sendMessage d reqUser body newId now =
     (let mType = (case mb_messageType body of None \<Rightarrow> ''text'' | Some t \<Rightarrow> t) in
      if \<not> truthy (mb_receiverId body) then ((400, ''Valid receiver ID is required''), d)
      else if \<not> truthy (mb_content body) \<or> length (trim (the (mb_content body))) = 0
                \<or> length (the (mb_content body)) > 2000
        then ((400, ''Message content must be between 1 and 2000 characters''), d)
      else if \<not> array_includes messageTypes (Some mType) then ((400, ''Invalid message type''), d)
      else if mType \<noteq> ''text'' \<and> truthy (mb_mediaUrl body)
                \<and> \<not> isHttpUrl (the (mb_mediaUrl body))
        then ((400, ''Valid media URL is required for non-text messages''), d)
      else
        (let receiverId = the (mb_receiverId body) in
         if \<not> ObjectId_isValid receiverId then ((500, ''Server error''), d)
         else
           (case User_findById d receiverId of
              None \<Rightarrow> ((404, ''Receiver not found''), d)
            | Some receiver \<Rightarrow>
                if \<not> list_ex (\<lambda>i. i = receiverId) (connections reqUser) \<and> role reqUser \<noteq> ''admin''
                then ((403, ''You can only message your connections''), d)
                else
                  (let m = \<lparr>mid = newId, senderId = uid reqUser,
                            receiverId = castObjectId receiverId,
                            content = the (mb_content body), messageType = mType,
                            mediaUrl = mb_mediaUrl body, isRead = False, readAt = None,
                            isDeleted = False, deletedAt = None, deletedBy = [],
                            replyTo = mb_replyTo body,
                            reactions = [], createdAt = now\<rparr>
                   in if \<not> Message_validate m then ((500, ''Server error''), d)
                      else
                        (let d1 = d\<lparr>messages :=
                                      messages d
                                      @ [m\<lparr>replyTo := map_option castObjectId (replyTo m)\<rparr>]\<rparr>;
                             d2 = Notification_create
                                    \<lparr>n_recipientId = receiverId, n_senderId = uid reqUser,
                                     n_type = ''MESSAGE'', n_title = ''New message'',
                                     n_message = take 80 (the (mb_content body)),
                                     n_data = [(''senderId'', uid reqUser)], n_isRead = False,
                                     n_createdAt = now\<rparr> d1
                         in ((201, ''Message sent successfully''), d2))))))"

subsection \<open>The client's notification slice\<close>

record client_notification =
  cn_id :: string
  cn_isRead :: bool
  cn_readAt :: "timestamp option"

record pagination =
  current :: nat
  total :: nat
  hasNext :: bool
  hasPrev :: bool

record notification_state =
  st_notifications :: "client_notification list"
  unreadCount :: int
  loading :: bool
  error :: "string option"
  st_pagination :: pagination

definition initialState :: notification_state where
  "initialState =
     \<lparr>st_notifications = [], unreadCount = 0, loading = False, error = None,
      st_pagination = \<lparr>current = 1, total = 1, hasNext = False, hasPrev = False\<rparr>\<rparr>"

text \<open>\<open>find\<close> yields the first notification with the id; the mutation is made in place.\<close>

definition findNotification :: "notification_state \<Rightarrow> string \<Rightarrow> client_notification option" where
  "findNotification state notificationId =
     find (\<lambda>n. cn_id n = notificationId) (st_notifications state)"

definition addNotification :: "notification_state \<Rightarrow> client_notification \<Rightarrow> notification_state" where
  "addNotification state n =
     state\<lparr>st_notifications := n # st_notifications state, unreadCount := unreadCount state + 1\<rparr>"

definition markNotificationAsReadLocal ::
    "notification_state \<Rightarrow> string \<Rightarrow> timestamp \<Rightarrow> notification_state" where
  "markNotificationAsReadLocal state notificationId now =
     (case findNotification state notificationId of
        None \<Rightarrow> state
      | Some n \<Rightarrow>
          if \<not> cn_isRead n
          then state\<lparr>st_notifications :=
                       update_first (\<lambda>n. cn_id n = notificationId)
                         (\<lambda>n. n\<lparr>cn_isRead := True, cn_readAt := Some now\<rparr>) (st_notifications state),
                     unreadCount := max 0 (unreadCount state - 1)\<rparr>
          else state)"

definition markAllNotificationsAsReadLocal ::
    "notification_state \<Rightarrow> timestamp \<Rightarrow> notification_state" where
  "markAllNotificationsAsReadLocal state now =
     state\<lparr>st_notifications :=
             map (\<lambda>n. n\<lparr>cn_isRead := True, cn_readAt := Some now\<rparr>) (st_notifications state),
           unreadCount := 0\<rparr>"

definition removeNotification :: "notification_state \<Rightarrow> string \<Rightarrow> notification_state" where
  "removeNotification state notificationId =
     (let state1 =
        (case findNotification state notificationId of
           None \<Rightarrow> state
         | Some n \<Rightarrow>
             if \<not> cn_isRead n then state\<lparr>unreadCount := max 0 (unreadCount state - 1)\<rparr>
             else state)
      in state1\<lparr>st_notifications :=
                  filter (\<lambda>n. cn_id n \<noteq> notificationId) (st_notifications state1)\<rparr>)"

text \<open>The cases of \<open>extraReducers\<close> that answer a fulfilled request.\<close>

definition markNotificationAsRead_fulfilled ::
    "notification_state \<Rightarrow> client_notification \<Rightarrow> notification_state" where
  "markNotificationAsRead_fulfilled state updatedNotification =
     (case findIndex (\<lambda>n. cn_id n = cn_id updatedNotification) (st_notifications state) of
        None \<Rightarrow> state
      | Some index \<Rightarrow>
          (let wasUnread = \<not> cn_isRead (st_notifications state ! index);
               state1 = state\<lparr>st_notifications :=
                                (st_notifications state)[index := updatedNotification]\<rparr>
           in if wasUnread \<and> cn_isRead updatedNotification
              then state1\<lparr>unreadCount := max 0 (unreadCount state1 - 1)\<rparr>
              else state1))"

definition markAllNotificationsAsRead_fulfilled ::
    "notification_state \<Rightarrow> timestamp \<Rightarrow> notification_state" where
  "markAllNotificationsAsRead_fulfilled state now =
     state\<lparr>st_notifications :=
             map (\<lambda>n. n\<lparr>cn_isRead := True, cn_readAt := Some now\<rparr>) (st_notifications state),
           unreadCount := 0\<rparr>"

definition deleteNotification_fulfilled :: "notification_state \<Rightarrow> string \<Rightarrow> notification_state" where
  "deleteNotification_fulfilled state notificationId =
     (let state1 =
        (case findNotification state notificationId of
           None \<Rightarrow> state
         | Some n \<Rightarrow>
             if \<not> cn_isRead n then state\<lparr>unreadCount := max 0 (unreadCount state - 1)\<rparr>
             else state)
      in state1\<lparr>st_notifications :=
                  filter (\<lambda>n. cn_id n \<noteq> notificationId) (st_notifications state1)\<rparr>)"

text \<open>Whether the notification an action names is in the list and unread.\<close>

definition wasUnread :: "notification_state \<Rightarrow> string \<Rightarrow> bool" where
  "wasUnread state notificationId =
     (case findNotification state notificationId of None \<Rightarrow> False | Some n \<Rightarrow> \<not> cn_isRead n)"

subsection \<open>Example documents\<close>

definition alice :: oid where
  "alice = ''64a1f0000000000000000001''"

definition bob :: oid where
  "bob = ''64b2f0000000000000000002''"

definition hello :: message where
  "hello =
     \<lparr>mid = ''64c3f0000000000000000003'', senderId = alice, receiverId = bob,
      content = ''hello'', messageType = ''text'', mediaUrl = None, isRead = False,
      readAt = None, isDeleted = False, deletedAt = None, deletedBy = [], replyTo = None,
      reactions = [], createdAt = 1000\<rparr>"

definition hidden_hello :: message where
  "hidden_hello =
     hello\<lparr>isDeleted := True, deletedAt := Some 2000,
           deletedBy := [\<lparr>d_userId = alice, d_deletedAt = 2000\<rparr>]\<rparr>"

definition member :: "oid \<Rightarrow> string \<Rightarrow> user" where
  "member i n =
     \<lparr>uid = i, name = n, role = ''user'', isActive = True, connections = [],
      connectionRequests = [], sentRequests = []\<rparr>"

definition two_users :: db where
  "two_users =
     \<lparr>users = [member alice ''Alice'', member bob ''Bob''],
      messages = [], notifications = []\<rparr>"


text \<open>A state of the slice whose counter is behind its list: one unread notification, counter 0.\<close>

definition stale_counter :: notification_state where
  "stale_counter =
     initialState\<lparr>st_notifications := [\<lparr>cn_id = ''n1'', cn_isRead = False, cn_readAt = None\<rparr>]\<rparr>"

text \<open>The store after Alice has asked Bob to connect, at time 0.\<close>

definition alice_asked_bob :: db where
  "alice_asked_bob =
     \<lparr>users =
        [(member alice ''Alice'')\<lparr>sentRequests := [\<lparr>sr_to = bob, sr_sentAt = 0\<rparr>]\<rparr>,
         (member bob ''Bob'')\<lparr>connectionRequests := [\<lparr>cr_from = alice, cr_sentAt = 0\<rparr>]\<rparr>],
      messages = [],
      notifications =
        [\<lparr>n_recipientId = bob, n_senderId = alice, n_type = ''CONNECTION_REQUEST'',
          n_title = ''New connection request'',
          n_message = ''Alice sent you a connection request'',
          n_data = [(''from'', alice)], n_isRead = False, n_createdAt = 0\<rparr>]\<rparr>"

text \<open>Alice and Bob connected, and the body of an image message without a media URL.\<close>

definition alice_connected :: user where
  "alice_connected = (member alice ''Alice'')\<lparr>connections := [bob]\<rparr>"

definition connected_users :: db where
  "connected_users =
     \<lparr>users = [alice_connected, (member bob ''Bob'')\<lparr>connections := [alice]\<rparr>],
      messages = [], notifications = []\<rparr>"

definition image_without_url :: message_body where
  "image_without_url =
     \<lparr>mb_receiverId = Some bob, mb_content = Some ''photo'', mb_messageType = Some ''image'',
      mb_mediaUrl = None, mb_replyTo = None\<rparr>"

definition share_body :: notification_body where
  "share_body =
     \<lparr>b_recipientId = Some bob, b_type = Some ''POST_SHARED'', b_title = Some ''Post shared'',
      b_message = Some ''Alice shared your post'', b_data = None\<rparr>"


section \<open>The message log\<close>

subsection \<open>Fetching a conversation\<close>

lemma getConversation_Some:
  assumes "ObjectId_isValid a" and "ObjectId_isValid b"
  shows "getConversation log a b lim sk =
           Some (limit_docs lim (drop sk (sort_key (\<lambda>m. - createdAt m)
             (filter (\<lambda>m. between (castObjectId a) (castObjectId b) m \<and> \<not> isDeleted m) log))))"
  using assms by (simp add: getConversation_def)

lemma set_limit_docs: "set (limit_docs n xs) \<subseteq> set xs"
  by (auto simp: limit_docs_def dest: in_set_takeD)

lemma getConversation_sound:
  assumes "getConversation log a b lim sk = Some ms" and "m \<in> set ms"
  shows "m \<in> set log \<and> between (castObjectId a) (castObjectId b) m \<and> \<not> isDeleted m"
proof -
  let ?conv = "filter (\<lambda>m. between (castObjectId a) (castObjectId b) m \<and> \<not> isDeleted m) log"
  from assms(1) have "ms = limit_docs lim (drop sk (sort_key (\<lambda>m. - createdAt m) ?conv))"
    by (simp add: getConversation_def split: if_splits)
  with assms(2) have "m \<in> set (drop sk (sort_key (\<lambda>m. - createdAt m) ?conv))"
    using set_limit_docs by fastforce
  then have "m \<in> set ?conv"
    by (auto dest: in_set_dropD)
  then show ?thesis by simp
qed

subsection \<open>Deleting a message\<close>

lemma find_by_mid:
  "distinct (map mid log) \<Longrightarrow> m \<in> set log \<Longrightarrow> find (\<lambda>x. mid x = mid m) log = Some m"
  by (induction log) (auto simp: image_iff)

lemma update_doc_at:
  assumes "\<And>x. mid (f x) = mid x"
  shows "distinct (map mid log) \<Longrightarrow> x \<in> set (update_doc i f log) \<Longrightarrow> mid x = i
         \<Longrightarrow> \<exists>y \<in> set log. x = f y"
proof (induction log)
  case Nil
  then show ?case by simp
next
  case (Cons m ms)
  show ?case
  proof (cases "mid m = i")
    case True
    with Cons.prems have "x = f m \<or> (x \<in> set ms \<and> mid x = mid m)" by auto
    moreover from Cons.prems(1) have "mid m \<notin> mid ` set ms" by simp
    ultimately have "x = f m" by (auto simp: image_iff)
    then show ?thesis by simp
  next
    case False
    with Cons.prems have "x \<in> set (update_doc i f ms)" by auto
    moreover from Cons.prems(1) have "distinct (map mid ms)" by simp
    ultimately have "\<exists>y \<in> set ms. x = f y" using Cons.IH Cons.prems(3) by blast
    then show ?thesis by auto
  qed
qed

lemma update_doc_others:
  assumes "\<And>x. mid (f x) = mid x"
  shows "filter (\<lambda>x. mid x \<noteq> i) (update_doc i f log) = filter (\<lambda>x. mid x \<noteq> i) log"
  using assms by (induction log) auto

lemma deleteMessage_by_party:
  assumes "m \<in> set log" and "distinct (map mid log)"
    and "ObjectId_isValid i" and "castObjectId i = mid m"
    and "u = senderId m \<or> u = receiverId m"
  shows "deleteMessage log u i now =
           (200, update_doc (mid m)
                   (\<lambda>m. m\<lparr>isDeleted := True, deletedAt := Some now,
                          deletedBy := deletedBy m @ [\<lparr>d_userId = u, d_deletedAt = now\<rparr>]\<rparr>)
                   log)"
proof -
  have "find (\<lambda>x. mid x = mid m) log = Some m"
    using assms(1,2) by (simp add: find_by_mid)
  with assms(3,4,5) show ?thesis
    by (auto simp: deleteMessage_def)
qed

lemma deleted_not_returned:
  assumes "m \<in> set log" and "distinct (map mid log)"
    and "ObjectId_isValid i" and "castObjectId i = mid m"
    and "u = senderId m \<or> u = receiverId m"
    and "getConversation (snd (deleteMessage log u i now)) x y l s = Some ms"
  shows "mid m \<notin> mid ` set ms"
proof
  let ?del = "\<lambda>m. m\<lparr>isDeleted := True, deletedAt := Some now,
                      deletedBy := deletedBy m @ [\<lparr>d_userId = u, d_deletedAt = now\<rparr>]\<rparr>"
  assume "mid m \<in> mid ` set ms"
  then obtain z where z: "z \<in> set ms" "mid z = mid m" by auto
  have log': "snd (deleteMessage log u i now) = update_doc (mid m) ?del log"
    using deleteMessage_by_party [OF assms(1-5)] by simp
  from assms(6) z(1) have "z \<in> set (update_doc (mid m) ?del log)" and nd: "\<not> isDeleted z"
    using getConversation_sound [of "snd (deleteMessage log u i now)" x y l s ms z]
    by (simp_all add: log')
  then have "\<exists>w \<in> set log. z = ?del w"
    using update_doc_at [of ?del log z "mid m"] assms(2) z(2) by simp
  then have "isDeleted z" by auto
  with nd show False by simp
qed

text \<open>
  C1, as the specification states it: \<open>getConversation\<close> returns a message when only the
  other party deleted it. It does not: Alice sends \<open>hello\<close> to Bob and deletes it; the
  message is then deleted by the other party only from Bob's side, and Bob's fetch of the
  conversation is empty.
\<close>

theorem getConversation_other_party_counterexample:
  "deleteMessage [hello] alice (mid hello) 2000 = (200, [hidden_hello])
   \<and> between bob alice hidden_hello
   \<and> visible_to_spec bob hidden_hello
   \<and> getConversation [hidden_hello] bob alice 50 0 = Some []"
  by code_simp

text \<open>
  C1, amended: \<open>getConversation\<close> returns a message between the two users if and only
  if its \<open>isDeleted\<close> flag is false, and a message that either party has deleted is
  returned to neither. For two object ids, in any spelling: every message returned is a
  message of the log between the two users with \<open>isDeleted = false\<close>; the page asked
  for is the slice, from \<open>skip\<close> and of at most \<open>limit\<close> messages, of the whole
  conversation; the whole conversation (no skip, no limit) holds each such message of the
  log exactly once, newest first; and so does a first page whose limit is at least the
  number of those messages. For a message of a log with distinct ids: the delete request
  of its sender or of its receiver is answered 200, leaves the other messages as they
  were, and after it no fetch of any conversation returns a message with that id.
\<close>

theorem getConversation_returns_undeleted:
  "(ObjectId_isValid a \<and> ObjectId_isValid b \<longrightarrow>
      (\<exists>ms whole.
          getConversation log a b lim sk = Some ms
        \<and> getConversation log a b 0 0 = Some whole
        \<and> (\<forall>m \<in> set ms. m \<in> set log \<and> between (castObjectId a) (castObjectId b) m
                              \<and> \<not> isDeleted m)
        \<and> ms = limit_docs lim (drop sk whole)
        \<and> mset whole
            = mset (filter (\<lambda>m. between (castObjectId a) (castObjectId b) m \<and> \<not> isDeleted m) log)
        \<and> sorted (map (\<lambda>m. - createdAt m) whole)
        \<and> (sk = 0 \<and> length (filter (\<lambda>m. between (castObjectId a) (castObjectId b) m
                                             \<and> \<not> isDeleted m) log) \<le> lim
             \<longrightarrow> ms = whole)))
   \<and> (m \<in> set log \<and> distinct (map mid log) \<and> ObjectId_isValid i \<and> castObjectId i = mid m
        \<and> (u = senderId m \<or> u = receiverId m) \<longrightarrow>
        fst (deleteMessage log u i now) = 200
        \<and> filter (\<lambda>x. mid x \<noteq> mid m) (snd (deleteMessage log u i now))
            = filter (\<lambda>x. mid x \<noteq> mid m) log
        \<and> (\<forall>x y l s ms. getConversation (snd (deleteMessage log u i now)) x y l s = Some ms
               \<longrightarrow> mid m \<notin> mid ` set ms))"
proof (intro conjI impI)
  assume v: "ObjectId_isValid a \<and> ObjectId_isValid b"
  let ?conv = "filter (\<lambda>m. between (castObjectId a) (castObjectId b) m \<and> \<not> isDeleted m) log"
  let ?whole = "sort_key (\<lambda>m. - createdAt m) ?conv"
  let ?ms = "limit_docs lim (drop sk ?whole)"
  have 1: "getConversation log a b lim sk = Some ?ms"
    using v by (simp add: getConversation_Some)
  have 2: "getConversation log a b 0 0 = Some ?whole"
    using v by (simp add: getConversation_Some limit_docs_def)
  have 3: "\<forall>m \<in> set ?ms. m \<in> set log \<and> between (castObjectId a) (castObjectId b) m
                              \<and> \<not> isDeleted m"
    using getConversation_sound [OF 1] by blast
  have 4: "mset ?whole = mset ?conv" by simp
  have 5: "sorted (map (\<lambda>m. - createdAt m) ?whole)" by simp
  have 6: "sk = 0 \<and> length ?conv \<le> lim \<longrightarrow> ?ms = ?whole"
    by (auto simp: limit_docs_def)
  from 1 2 3 4 5 6
  show "\<exists>ms whole.
          getConversation log a b lim sk = Some ms
        \<and> getConversation log a b 0 0 = Some whole
        \<and> (\<forall>m \<in> set ms. m \<in> set log \<and> between (castObjectId a) (castObjectId b) m
                              \<and> \<not> isDeleted m)
        \<and> ms = limit_docs lim (drop sk whole)
        \<and> mset whole = mset ?conv
        \<and> sorted (map (\<lambda>m. - createdAt m) whole)
        \<and> (sk = 0 \<and> length ?conv \<le> lim \<longrightarrow> ms = whole)"
    by blast
next
  assume h: "m \<in> set log \<and> distinct (map mid log) \<and> ObjectId_isValid i \<and> castObjectId i = mid m
             \<and> (u = senderId m \<or> u = receiverId m)"
  then have d: "deleteMessage log u i now =
                  (200, update_doc (mid m)
                     (\<lambda>m. m\<lparr>isDeleted := True, deletedAt := Some now,
                            deletedBy := deletedBy m @ [\<lparr>d_userId = u, d_deletedAt = now\<rparr>]\<rparr>)
                     log)"
    using deleteMessage_by_party [of m log i u now] by blast
  show "fst (deleteMessage log u i now) = 200" by (simp add: d)
  show "filter (\<lambda>x. mid x \<noteq> mid m) (snd (deleteMessage log u i now))
          = filter (\<lambda>x. mid x \<noteq> mid m) log"
    by (simp add: d update_doc_others)
  show "\<forall>x y l s ms. getConversation (snd (deleteMessage log u i now)) x y l s = Some ms
               \<longrightarrow> mid m \<notin> mid ` set ms"
    using h deleted_not_returned [of m log i u now] by blast
qed

text \<open>
  Bob fetches the conversation with Alice, naming her by her id in upper case: the message
  is returned. Bob, the receiver, then deletes it, and neither his fetch nor Alice's
  returns it.
\<close>

theorem getConversation_returns_undeleted_witness:
  "ObjectId_isValid bob \<and> ObjectId_isValid ''64A1F0000000000000000001''
   \<and> getConversation [hello] bob ''64A1F0000000000000000001'' 50 0 = Some [hello]
   \<and> hello \<in> set [hello] \<and> distinct (map mid [hello]) \<and> ObjectId_isValid (mid hello)
   \<and> castObjectId (mid hello) = mid hello \<and> bob = receiverId hello
   \<and> fst (deleteMessage [hello] bob (mid hello) 3000) = 200
   \<and> getConversation (snd (deleteMessage [hello] bob (mid hello) 3000)) bob alice 50 0 = Some []
   \<and> getConversation (snd (deleteMessage [hello] bob (mid hello) 3000)) alice bob 50 0 = Some []"
proof -
  have v: "ObjectId_isValid bob \<and> ObjectId_isValid ''64A1F0000000000000000001''"
    by code_simp
  have h: "hello \<in> set [hello] \<and> distinct (map mid [hello]) \<and> ObjectId_isValid (mid hello)
           \<and> castObjectId (mid hello) = mid hello \<and> (bob = senderId hello \<or> bob = receiverId hello)"
    by code_simp
  have r: "bob = receiverId hello" by code_simp
  have g: "getConversation [hello] bob ''64A1F0000000000000000001'' 50 0 = Some [hello]"
    by code_simp
  have e1: "getConversation (snd (deleteMessage [hello] bob (mid hello) 3000)) bob alice 50 0 = Some []"
    by code_simp
  have e2: "getConversation (snd (deleteMessage [hello] bob (mid hello) 3000)) alice bob 50 0 = Some []"
    by code_simp
  from getConversation_returns_undeleted
         [of bob "''64A1F0000000000000000001''" "[hello]" 50 0 hello "mid hello" bob 3000]
       v h
  have "fst (deleteMessage [hello] bob (mid hello) 3000) = 200" by blast
  with v h r g e1 e2 show ?thesis by simp
qed

subsection \<open>Marking a conversation as read\<close>

lemma no_unread_after_map:
  "filter (unreadFrom a b)
     (map (\<lambda>m. if unreadFrom a b m then m\<lparr>isRead := True, readAt := Some now\<rparr> else m) log) = []"
  by (induction log) (simp_all add: unreadFrom_def)

lemma map_without_unread:
  "filter (unreadFrom a b) log = [] \<Longrightarrow>
   map (\<lambda>m. if unreadFrom a b m then m\<lparr>isRead := True, readAt := Some now\<rparr> else m) log = log"
  by (induction log) (simp_all split: if_splits)

lemma mark_without_unread:
  "filter (unreadFrom (castObjectId a) (castObjectId b)) log = [] \<Longrightarrow>
   markConversationAsRead log a b now = (0, log)"
  by (simp add: markConversationAsRead_def map_without_unread)

text \<open>
  C3: marking the conversation as read a second time modifies no message (the count it
  reports is 0) and leaves the log as the first call left it, whatever the log and the
  two times of the calls.
\<close>

theorem markConversationAsRead_idempotent:
  "markConversationAsRead (snd (markConversationAsRead log y x now1)) y x now2
     = (0, snd (markConversationAsRead log y x now1))"
proof (cases "ObjectId_isValid y \<and> ObjectId_isValid x")
  case True
  then have "filter (unreadFrom (castObjectId y) (castObjectId x))
               (snd (markConversationAsRead log y x now1)) = []"
    by (simp add: markConversationAsRead_def no_unread_after_map)
  then show ?thesis by (rule mark_without_unread)
next
  case False
  then show ?thesis by (auto simp: markConversationAsRead_def)
qed

text \<open>
  Bob marks the conversation with Alice, naming her by her id in upper case: the first
  call marks her message, the second marks nothing and leaves the log as it was.
\<close>

theorem markConversationAsRead_idempotent_witness:
  "ObjectId_isValid bob \<and> ObjectId_isValid ''64A1F0000000000000000001''
   \<and> markConversationAsRead [hello] bob ''64A1F0000000000000000001'' 10
       = (1, [hello\<lparr>isRead := True, readAt := Some 10\<rparr>])
   \<and> markConversationAsRead [hello\<lparr>isRead := True, readAt := Some 10\<rparr>] bob
         ''64A1F0000000000000000001'' 20
       = (0, [hello\<lparr>isRead := True, readAt := Some 10\<rparr>])"
proof -
  have v: "ObjectId_isValid bob \<and> ObjectId_isValid ''64A1F0000000000000000001''"
    by code_simp
  have f: "markConversationAsRead [hello] bob ''64A1F0000000000000000001'' 10
             = (1, [hello\<lparr>isRead := True, readAt := Some 10\<rparr>])"
    by code_simp
  from markConversationAsRead_idempotent [of "[hello]" bob "''64A1F0000000000000000001''" 10 20]
  have "markConversationAsRead [hello\<lparr>isRead := True, readAt := Some 10\<rparr>] bob
          ''64A1F0000000000000000001'' 20
          = (0, [hello\<lparr>isRead := True, readAt := Some 10\<rparr>])"
    by (simp add: f)
  with v f show ?thesis by simp
qed

subsection \<open>Reactions\<close>

lemma find_None_filter: "find P xs = None \<longleftrightarrow> filter P xs = []"
  by (induction xs) simp_all

lemma filter_update_first_same:
  "(\<And>x. P x \<Longrightarrow> P (f x)) \<Longrightarrow>
   filter P (update_first P f xs) = (case filter P xs of [] \<Rightarrow> [] | y # ys \<Rightarrow> f y # ys)"
  by (induction xs) simp_all

lemma filter_update_first_other:
  "u \<noteq> v \<Longrightarrow>
   filter (\<lambda>r. r_userId r = v)
     (update_first (\<lambda>r. r_userId r = u) (\<lambda>r. r\<lparr>r_emoji := e, r_createdAt := t\<rparr>) xs)
   = filter (\<lambda>r. r_userId r = v) xs"
  by (induction xs) auto

lemma reactionsOf_addReaction_same:
  "reactionsOf u (addReaction u e t m) =
     (case reactionsOf u m of
        [] \<Rightarrow> [\<lparr>r_userId = u, r_emoji = e, r_createdAt = t\<rparr>]
      | r # rs \<Rightarrow> r\<lparr>r_emoji := e, r_createdAt := t\<rparr> # rs)"
proof (cases "find (\<lambda>r. r_userId r = u) (reactions m)")
  case None
  then have "filter (\<lambda>r. r_userId r = u) (reactions m) = []"
    by (simp add: find_None_filter)
  with None show ?thesis
    by (simp add: addReaction_def reactionsOf_def)
next
  case (Some r)
  then have "filter (\<lambda>r. r_userId r = u) (reactions m) \<noteq> []"
    using find_None_filter [of "\<lambda>r. r_userId r = u" "reactions m"] by simp
  with Some show ?thesis
    by (simp add: addReaction_def reactionsOf_def filter_update_first_same split: list.splits)
qed

lemma reactionsOf_addReaction_other:
  "u \<noteq> v \<Longrightarrow> reactionsOf v (addReaction u e t m) = reactionsOf v m"
  by (cases "find (\<lambda>r. r_userId r = u) (reactions m)")
     (simp_all add: addReaction_def reactionsOf_def filter_update_first_other)

lemma reactionsOf_removeReaction_other:
  "u \<noteq> v \<Longrightarrow> reactionsOf v (removeReaction u m) = reactionsOf v m"
  by (auto simp: removeReaction_def reactionsOf_def intro: filter_cong)

text \<open>
  A message is created without reactions, and the two reaction methods keep the users of
  the entries distinct; a message reached through them has at most one entry for a user.
\<close>

lemma map_userId_update_first:
  "map r_userId (update_first P (\<lambda>r. r\<lparr>r_emoji := e, r_createdAt := t\<rparr>) xs) = map r_userId xs"
  by (induction xs) simp_all

lemma addReaction_distinct:
  "distinct (map r_userId (reactions m)) \<Longrightarrow>
   distinct (map r_userId (reactions (addReaction u e t m)))"
proof (cases "find (\<lambda>r. r_userId r = u) (reactions m)")
  case None
  assume d: "distinct (map r_userId (reactions m))"
  from None have "filter (\<lambda>r. r_userId r = u) (reactions m) = []"
    by (simp add: find_None_filter)
  then have "u \<notin> r_userId ` set (reactions m)"
    by (auto simp: filter_empty_conv)
  with None d show ?thesis by (simp add: addReaction_def)
next
  case (Some r)
  assume "distinct (map r_userId (reactions m))"
  with Some show ?thesis by (simp add: addReaction_def map_userId_update_first)
qed

lemma removeReaction_distinct:
  "distinct (map r_userId (reactions m)) \<Longrightarrow>
   distinct (map r_userId (reactions (removeReaction u m)))"
  by (simp add: removeReaction_def distinct_map_filter)

lemma distinct_one_entry:
  "distinct (map r_userId (reactions m)) \<Longrightarrow> length (reactionsOf u m) \<le> 1"
proof -
  have "distinct (map r_userId xs) \<Longrightarrow> length (filter (\<lambda>r. r_userId r = u) xs) \<le> 1"
    for xs :: "reaction list"
  proof (induction xs)
    case Nil
    then show ?case by simp
  next
    case (Cons x xs)
    show ?case
    proof (cases "r_userId x = u")
      case True
      with Cons.prems have "u \<notin> r_userId ` set xs" by auto
      then have "filter (\<lambda>r. r_userId r = u) xs = []" by (auto simp: filter_empty_conv)
      with True show ?thesis by simp
    next
      case False
      with Cons show ?thesis by simp
    qed
  qed
  then show "distinct (map r_userId (reactions m)) \<Longrightarrow> length (reactionsOf u m) \<le> 1"
    by (simp add: reactionsOf_def)
qed

lemma apply_reaction_ops_distinct:
  "distinct (map r_userId (reactions m)) \<Longrightarrow>
   distinct (map r_userId (reactions (apply_reaction_ops m ops)))"
proof (induction ops arbitrary: m)
  case Nil
  then show ?case by simp
next
  case (Cons x ops)
  then show ?case
    by (cases x) (simp_all add: addReaction_distinct removeReaction_distinct)
qed

lemma reached_message_one_entry:
  "reactions m = [] \<Longrightarrow> length (reactionsOf u (apply_reaction_ops m ops)) \<le> 1"
  by (rule distinct_one_entry) (simp add: apply_reaction_ops_distinct)

text \<open>
  C4: on a message that holds at most one reaction of user \<open>u\<close> (the data model's
  invariant, which holds of every message the reaction methods reach from a new one),
  reacting with \<open>e1\<close> and then with \<open>e2\<close>
  leaves exactly one reaction entry of \<open>u\<close>, the one with emoji \<open>e2\<close>.
\<close>

theorem addReaction_upsert:
  assumes "length (reactionsOf u m) \<le> 1"
  shows "reactionsOf u (addReaction u e2 t2 (addReaction u e1 t1 m))
           = [\<lparr>r_userId = u, r_emoji = e2, r_createdAt = t2\<rparr>]"
proof (cases "reactionsOf u m")
  case Nil
  then show ?thesis by (simp add: reactionsOf_addReaction_same)
next
  case (Cons r rs)
  with assms have rs: "rs = []" by simp
  have "r \<in> set (reactionsOf u m)" using Cons by simp
  then have "r_userId r = u" by (simp add: reactionsOf_def)
  with Cons rs show ?thesis by (simp add: reactionsOf_addReaction_same)
qed

theorem addReaction_upsert_witness:
  "length (reactionsOf bob (addReaction alice ''ok'' 1 hello)) \<le> 1
   \<and> reactionsOf bob
       (addReaction bob ''fire'' 3 (addReaction bob ''thumbsup'' 2 (addReaction alice ''ok'' 1 hello)))
       = [\<lparr>r_userId = bob, r_emoji = ''fire'', r_createdAt = 3\<rparr>]"
  using addReaction_upsert [of bob "addReaction alice ''ok'' 1 hello" "''fire''" 3 "''thumbsup''" 2]
  by (simp add: reactionsOf_def addReaction_def hello_def alice_def bob_def)

text \<open>
  C8: a reaction operation of user \<open>u\<close> leaves the reaction entries of every other user
  \<open>v\<close> as they were, and changes no field of the message but \<open>reactions\<close> (putting the
  old reactions back gives the old message); \<open>removeReaction\<close> keeps the entries of the
  other users, in their order, and no entry of \<open>u\<close>.
\<close>

theorem reaction_frame:
  assumes "u \<noteq> v"
  shows "reactionsOf v (addReaction u e now m) = reactionsOf v m
       \<and> reactionsOf v (removeReaction u m) = reactionsOf v m
       \<and> (addReaction u e now m)\<lparr>reactions := reactions m\<rparr> = m
       \<and> (removeReaction u m)\<lparr>reactions := reactions m\<rparr> = m
       \<and> reactions (removeReaction u m) = filter (\<lambda>r. r_userId r \<noteq> u) (reactions m)
       \<and> reactionsOf u (removeReaction u m) = []"
proof -
  have "(addReaction u e now m)\<lparr>reactions := reactions m\<rparr> = m"
    by (cases "find (\<lambda>r. r_userId r = u) (reactions m)") (simp_all add: addReaction_def)
  moreover have "(removeReaction u m)\<lparr>reactions := reactions m\<rparr> = m"
    by (simp add: removeReaction_def)
  moreover have "reactionsOf u (removeReaction u m) = []"
    by (simp add: removeReaction_def reactionsOf_def)
  moreover have "reactions (removeReaction u m) = filter (\<lambda>r. r_userId r \<noteq> u) (reactions m)"
    by (simp add: removeReaction_def)
  ultimately show ?thesis
    using assms reactionsOf_addReaction_other [of u v e now m]
      reactionsOf_removeReaction_other [of u v m]
    by simp
qed

theorem reaction_frame_witness:
  "alice \<noteq> bob
   \<and> reactionsOf bob (addReaction alice ''ok'' 5 (addReaction bob ''fire'' 3 hello))
       = [\<lparr>r_userId = bob, r_emoji = ''fire'', r_createdAt = 3\<rparr>]
   \<and> reactionsOf bob (removeReaction alice (addReaction bob ''fire'' 3 hello))
       = [\<lparr>r_userId = bob, r_emoji = ''fire'', r_createdAt = 3\<rparr>]"
  using reaction_frame [of alice bob "''ok''" 5 "addReaction bob ''fire'' 3 hello"]
  by (simp add: reactionsOf_def addReaction_def hello_def alice_def bob_def)

section \<open>The client's unread counter\<close>

lemma findIndex_find:
  "(\<forall>i. findIndex P xs = Some i \<longrightarrow> find P xs = Some (xs ! i))
   \<and> (findIndex P xs = None \<longrightarrow> find P xs = None)"
  by (induction xs) (auto split: option.splits)

lemma findIndex_Some_find: "findIndex P xs = Some i \<Longrightarrow> find P xs = Some (xs ! i)"
  using findIndex_find [of P xs] by blast

lemma findIndex_None_find: "findIndex P xs = None \<Longrightarrow> find P xs = None"
  using findIndex_find [of P xs] by blast

lemma unreadCount_addNotification:
  "unreadCount (addNotification s n) = unreadCount s + 1"
  by (simp add: addNotification_def)

lemma unreadCount_markNotificationAsReadLocal:
  "unreadCount (markNotificationAsReadLocal s i now)
     = (if wasUnread s i then max 0 (unreadCount s - 1) else unreadCount s)"
  by (simp add: markNotificationAsReadLocal_def wasUnread_def split: option.splits)

lemma unreadCount_removeNotification:
  "unreadCount (removeNotification s i)
     = (if wasUnread s i then max 0 (unreadCount s - 1) else unreadCount s)"
  by (simp add: removeNotification_def wasUnread_def Let_def split: option.splits)

lemma unreadCount_deleteNotification_fulfilled:
  "unreadCount (deleteNotification_fulfilled s i)
     = (if wasUnread s i then max 0 (unreadCount s - 1) else unreadCount s)"
  by (simp add: deleteNotification_fulfilled_def wasUnread_def Let_def split: option.splits)

lemma unreadCount_markNotificationAsRead_fulfilled:
  "unreadCount (markNotificationAsRead_fulfilled s n)
     = (if wasUnread s (cn_id n) \<and> cn_isRead n then max 0 (unreadCount s - 1) else unreadCount s)"
proof (cases "findIndex (\<lambda>x. cn_id x = cn_id n) (st_notifications s)")
  case None
  then have "find (\<lambda>x. cn_id x = cn_id n) (st_notifications s) = None"
    by (rule findIndex_None_find)
  with None show ?thesis
    by (simp add: markNotificationAsRead_fulfilled_def wasUnread_def findNotification_def)
next
  case (Some i)
  then have "find (\<lambda>x. cn_id x = cn_id n) (st_notifications s) = Some (st_notifications s ! i)"
    by (rule findIndex_Some_find)
  with Some show ?thesis
    by (simp add: markNotificationAsRead_fulfilled_def wasUnread_def findNotification_def Let_def)
qed

text \<open>
  C10: from a state whose \<open>unreadCount\<close> is not negative, every reducer that touches the
  counter leaves it not negative. \<open>addNotification\<close> adds one, the two mark-all reducers
  set it to zero, and the others take one off, clamped at zero, exactly when the
  notification they name is in the list and unread (and, for the fulfilled
  \<open>markNotificationAsRead\<close>, the notification that came back is read).
\<close>

theorem unreadCount_never_negative:
  assumes "0 \<le> unreadCount s"
  shows "0 \<le> unreadCount (addNotification s n)
       \<and> 0 \<le> unreadCount (markNotificationAsReadLocal s i now)
       \<and> 0 \<le> unreadCount (markAllNotificationsAsReadLocal s now)
       \<and> 0 \<le> unreadCount (removeNotification s i)
       \<and> 0 \<le> unreadCount (markNotificationAsRead_fulfilled s n)
       \<and> 0 \<le> unreadCount (markAllNotificationsAsRead_fulfilled s now)
       \<and> 0 \<le> unreadCount (deleteNotification_fulfilled s i)
       \<and> unreadCount (markNotificationAsReadLocal s i now)
           = (if wasUnread s i then max 0 (unreadCount s - 1) else unreadCount s)
       \<and> unreadCount (removeNotification s i)
           = (if wasUnread s i then max 0 (unreadCount s - 1) else unreadCount s)
       \<and> unreadCount (markNotificationAsRead_fulfilled s n)
           = (if wasUnread s (cn_id n) \<and> cn_isRead n then max 0 (unreadCount s - 1)
              else unreadCount s)
       \<and> unreadCount (deleteNotification_fulfilled s i)
           = (if wasUnread s i then max 0 (unreadCount s - 1) else unreadCount s)"
proof -
  have "unreadCount (markAllNotificationsAsReadLocal s now) = 0"
    by (simp add: markAllNotificationsAsReadLocal_def)
  moreover have "unreadCount (markAllNotificationsAsRead_fulfilled s now) = 0"
    by (simp add: markAllNotificationsAsRead_fulfilled_def)
  ultimately show ?thesis
    using assms
    by (simp add: unreadCount_addNotification unreadCount_markNotificationAsReadLocal
        unreadCount_removeNotification unreadCount_deleteNotification_fulfilled
        unreadCount_markNotificationAsRead_fulfilled)
qed

theorem unreadCount_never_negative_witness:
  "0 \<le> unreadCount stale_counter
   \<and> wasUnread stale_counter ''n1''
   \<and> unreadCount (removeNotification stale_counter ''n1'') = 0
   \<and> unreadCount (markNotificationAsReadLocal stale_counter ''n1'' 9) = 0
   \<and> unreadCount (addNotification stale_counter \<lparr>cn_id = ''n2'', cn_isRead = False, cn_readAt = None\<rparr>) = 1"
  using unreadCount_never_negative
          [of stale_counter "\<lparr>cn_id = ''n2'', cn_isRead = False, cn_readAt = None\<rparr>" "''n1''" 9]
  by (simp add: stale_counter_def initialState_def wasUnread_def findNotification_def
      addNotification_def)

section \<open>Connection requests\<close>

lemma valid_id_not_empty: "ObjectId_isValid s \<Longrightarrow> s \<noteq> []"
  by (auto simp: ObjectId_isValid_def)

text \<open>
  The guard on a request to oneself compares the path parameter with the user's id as
  strings, in the form \<open>toString()\<close> yields: a path parameter that is that string is
  answered 400 "Cannot connect with yourself", whatever the store holds, and the store
  is as it was.
\<close>

lemma cannot_connect_with_yourself:
  assumes "ObjectId_isValid (uid u)"
  shows "sendConnectionRequest d u (uid u) now = ((400, ''Cannot connect with yourself''), d)"
  using assms valid_id_not_empty [of "uid u"]
  by (simp add: sendConnectionRequest_def Let_def)

text \<open>
  C9: a user cannot send a connection request to themself. The handler means to refuse
  one, and misses the other spellings of the user's id. Alice names herself by her id
  with upper-case digits: that is a different string, it passes the guard, \<open>findById\<close>
  reads it as her own id, the request is answered 200 "Connection request sent
  successfully", and Alice's document holds a request from and to her own id (the store
  has changed, and her status towards herself reads "requested").
\<close>

theorem self_request_other_spelling:
  "castObjectId ''64A1F0000000000000000001'' = alice
   \<and> find (\<lambda>u. uid u = alice) (users two_users) = Some (member alice ''Alice'')
   \<and> fst (sendConnectionRequest two_users (member alice ''Alice'') ''64A1F0000000000000000001'' 7)
       = (200, ''Connection request sent successfully'')
   \<and> userOf (snd (sendConnectionRequest two_users (member alice ''Alice'')
                       ''64A1F0000000000000000001'' 7)) alice
       = (member alice ''Alice'')
           \<lparr>connectionRequests := [\<lparr>cr_from = alice, cr_sentAt = 7\<rparr>],
            sentRequests := [\<lparr>sr_to = alice, sr_sentAt = 7\<rparr>]\<rparr>"
  by code_simp

theorem self_request_other_spelling_witness:
  "ObjectId_isValid ''64A1F0000000000000000001''
   \<and> uid (member alice ''Alice'') \<noteq> ''64A1F0000000000000000001''
   \<and> isActive (member alice ''Alice'')
   \<and> hasReceivedRequestFrom
         (userOf (snd (sendConnectionRequest two_users (member alice ''Alice'')
                         ''64A1F0000000000000000001'' 7)) alice) alice
   \<and> hasSentRequestTo
         (userOf (snd (sendConnectionRequest two_users (member alice ''Alice'')
                         ''64A1F0000000000000000001'' 7)) alice) alice
   \<and> getConnectionStatus
         (userOf (snd (sendConnectionRequest two_users (member alice ''Alice'')
                         ''64A1F0000000000000000001'' 7)) alice) alice = ''requested''"
proof -
  have g: "ObjectId_isValid ''64A1F0000000000000000001''
           \<and> uid (member alice ''Alice'') \<noteq> ''64A1F0000000000000000001''
           \<and> isActive (member alice ''Alice'')"
    by code_simp
  from self_request_other_spelling
  have "userOf (snd (sendConnectionRequest two_users (member alice ''Alice'')
                       ''64A1F0000000000000000001'' 7)) alice
          = (member alice ''Alice'')
              \<lparr>connectionRequests := [\<lparr>cr_from = alice, cr_sentAt = 7\<rparr>],
               sentRequests := [\<lparr>sr_to = alice, sr_sentAt = 7\<rparr>]\<rparr>"
    by blast
  with g show ?thesis
    by (simp add: hasReceivedRequestFrom_def hasSentRequestTo_def getConnectionStatus_def
        isConnectedTo_def member_def)
qed


lemma userOf_stored: "find (\<lambda>x. uid x = i) (users d) = Some u \<Longrightarrow> userOf d i = u"
  by (simp add: userOf_def)



subsection \<open>Accepting and rejecting\<close>

lemma find_update_first_same:
  "(\<And>x. uid (f x) = uid x) \<Longrightarrow>
   find (\<lambda>x. uid x = i) (update_first (\<lambda>x. uid x = i) f xs)
     = map_option f (find (\<lambda>x. uid x = i) xs)"
  by (induction xs) simp_all

lemma find_update_first_other:
  "(\<And>x. uid (f x) = uid x) \<Longrightarrow> i \<noteq> j \<Longrightarrow>
   find (\<lambda>x. uid x = i) (update_first (\<lambda>x. uid x = j) f xs) = find (\<lambda>x. uid x = i) xs"
  by (induction xs) simp_all

lemma userOf_update_user_same:
  "(\<And>x. uid (f x) = uid x) \<Longrightarrow> find (\<lambda>x. uid x = i) (users d) = Some u \<Longrightarrow>
   userOf (update_user i f d) i = f u"
  by (simp add: userOf_def update_user_def find_update_first_same)

lemma userOf_update_user_other:
  "(\<And>x. uid (f x) = uid x) \<Longrightarrow> i \<noteq> j \<Longrightarrow> userOf (update_user j f d) i = userOf d i"
  by (simp add: userOf_def update_user_def find_update_first_other)

lemma users_Notification_create: "users (Notification_create n d) = users d"
  by (simp add: Notification_create_def)

lemma userOf_Notification_create: "userOf (Notification_create n d) i = userOf d i"
  by (simp add: userOf_def users_Notification_create)

lemma find_uid: "find (\<lambda>x. uid x = i) xs = Some u \<Longrightarrow> uid u = i"
  by (induction xs) (auto split: if_splits)

text \<open>
  Accepting does what the claim says of it: with the receiver \<open>r\<close> and the sender \<open>s\<close>
  both stored, the receiver lists the sender, the sender lists the receiver, the sender's
  \<open>sentRequests\<close> no longer names the receiver, and the receiver's request entry is gone.
\<close>

lemma accept_connects:
  assumes r: "find (\<lambda>x. uid x = uid r) (users d) = Some r"
    and s: "find (\<lambda>x. uid x = s) (users d) = Some su"
    and ne: "s \<noteq> uid r"
    and valid: "ObjectId_isValid s" and canon: "castObjectId s = s"
    and idx: "findIndex (\<lambda>q. cr_from q = s) (connectionRequests r) = Some i"
  shows "fst (respondToConnectionRequest d r s (Some ''accept'') now)
            = (200, ''Connection request accepted successfully'')
       \<and> isConnectedTo (userOf (snd (respondToConnectionRequest d r s (Some ''accept'') now)) (uid r)) s
       \<and> isConnectedTo (userOf (snd (respondToConnectionRequest d r s (Some ''accept'') now)) s) (uid r)
       \<and> \<not> hasSentRequestTo (userOf (snd (respondToConnectionRequest d r s (Some ''accept'') now)) s) (uid r)
       \<and> connectionRequests (userOf (snd (respondToConnectionRequest d r s (Some ''accept'') now)) (uid r))
            = splice1 i (connectionRequests r)"
proof -
  let ?g = "\<lambda>u. u\<lparr>connections := (if \<not> isConnectedTo u (uid r) then connections u @ [uid r]
                                     else connections u),
                     sentRequests := filter (\<lambda>q. sr_to q \<noteq> uid r) (sentRequests u)\<rparr>"
  let ?h = "\<lambda>u. u\<lparr>connectionRequests := splice1 i (connectionRequests r),
                     connections := (if \<not> isConnectedTo r s then connections r @ [castObjectId s]
                                     else connections r)\<rparr>"
  let ?n = "\<lparr>n_recipientId = s, n_senderId = uid r, n_type = ''CONNECTION_ACCEPTED'',
             n_title = ''Connection request accepted'',
             n_message = nameOr (name r) ''Your connection'' @ '' accepted your request'',
             n_data = [(''acceptedBy'', uid r)], n_isRead = False, n_createdAt = now\<rparr>"
  let ?d1 = "update_user s ?g d"
  let ?d2 = "Notification_create ?n ?d1"
  let ?d3 = "update_user (uid r) ?h ?d2"
  have su: "uid su = s" using s by (rule find_uid)
  have res: "respondToConnectionRequest d r s (Some ''accept'') now
               = ((200, ''Connection request accepted successfully''), ?d3)"
    using idx valid s su canon ne
    by (simp add: respondToConnectionRequest_def User_findById_def Let_def)
  have r2: "find (\<lambda>x. uid x = uid r) (users ?d2) = Some r"
    using r ne by (simp add: users_Notification_create update_user_def find_update_first_other)
  have ur: "userOf ?d3 (uid r) = ?h r"
    using r2 by (simp add: userOf_update_user_same)
  have "userOf ?d3 s = userOf ?d2 s"
    using ne by (simp add: userOf_update_user_other)
  also have "\<dots> = userOf ?d1 s" by (simp add: userOf_Notification_create)
  also have "\<dots> = ?g su" using s by (simp add: userOf_update_user_same)
  finally have us: "userOf ?d3 s = ?g su" .
  have "isConnectedTo (?h r) s"
    using canon by (auto simp: isConnectedTo_def)
  moreover have "isConnectedTo (?g su) (uid r)"
    by (auto simp: isConnectedTo_def)
  moreover have "\<not> hasSentRequestTo (?g su) (uid r)"
    by (simp add: hasSentRequestTo_def list_ex_iff)
  moreover have "connectionRequests (?h r) = splice1 i (connectionRequests r)"
    by simp
  ultimately show ?thesis
    unfolding res fst_conv snd_conv ur us by blast
qed

text \<open>
  Rejecting writes the receiver's document alone: the sender's document, with its
  \<open>sentRequests\<close> entry for the receiver, is what it was.
\<close>

lemma reject_leaves_sender:
  assumes "s \<noteq> uid r"
  shows "userOf (snd (respondToConnectionRequest d r s (Some ''reject'') now)) s = userOf d s"
proof (cases "findIndex (\<lambda>q. cr_from q = s) (connectionRequests r)")
  case None
  then show ?thesis by (simp add: respondToConnectionRequest_def Let_def)
next
  case (Some i)
  with assms show ?thesis
    by (simp add: respondToConnectionRequest_def Let_def userOf_update_user_other)
qed

subsection \<open>The mirror of a sent request\<close>

text \<open>
  Sending a request writes the entry and its mirror, accepting removes the sender's
  entries with the receiver's, and removing a connection touches neither list: from a
  store whose ids are in the form \<open>toString()\<close> yields, every sequence of requests
  without a reject keeps each \<open>sentRequests\<close> entry mirrored. The reject branch alone
  leaves an entry without its mirror.
\<close>

lemma find_update_first_uid:
  assumes "\<And>x. uid (f x) = uid x"
  shows "find (\<lambda>x. uid x = j) (update_first (\<lambda>x. uid x = i) f xs)
           = (if i = j then map_option f (find (\<lambda>x. uid x = j) xs)
              else find (\<lambda>x. uid x = j) xs)"
proof (cases "i = j")
  case True
  with assms show ?thesis by (simp add: find_update_first_same)
next
  case False
  with assms show ?thesis by (simp add: find_update_first_other)
qed

lemma userOf_update_user:
  assumes "\<And>x. uid (f x) = uid x"
  shows "userOf (update_user i f d) j
           = (if i = j \<and> find (\<lambda>x. uid x = j) (users d) \<noteq> None then f (userOf d j)
              else userOf d j)"
  using assms
  by (auto simp: userOf_def update_user_def find_update_first_uid split: option.splits)

lemma stored_update_user:
  assumes "\<And>x. uid (f x) = uid x"
  shows "(find (\<lambda>x. uid x = j) (users (update_user i f d)) = None)
           = (find (\<lambda>x. uid x = j) (users d) = None)"
  using assms by (simp add: update_user_def find_update_first_uid)

lemma map_uid_update_user:
  assumes "\<And>x. uid (f x) = uid x"
  shows "map uid (users (update_user i f d)) = map uid (users d)"
proof -
  have "map uid (update_first P f xs) = map uid xs" for P and xs :: "user list"
    using assms by (induction xs) simp_all
  then show ?thesis by (simp add: update_user_def)
qed

lemma no_user_nothing_sent:
  "find (\<lambda>x. uid x = i) (users d) = None \<Longrightarrow> \<not> hasSentRequestTo (userOf d i) b"
  by (simp add: userOf_def hasSentRequestTo_def)

lemma list_ex_splice1:
  "findIndex (\<lambda>q. cr_from q = s) xs = Some i \<Longrightarrow> a \<noteq> s \<Longrightarrow>
   list_ex (\<lambda>q. cr_from q = a) (splice1 i xs) = list_ex (\<lambda>q. cr_from q = a) xs"
proof (induction xs arbitrary: i)
  case Nil
  then show ?case by simp
next
  case (Cons x xs)
  show ?case
  proof (cases "cr_from x = s")
    case True
    with Cons.prems show ?thesis by (simp add: splice1_def)
  next
    case False
    with Cons.prems obtain k where k: "findIndex (\<lambda>q. cr_from q = s) xs = Some k" "i = Suc k"
      by (auto split: option.splits)
    with Cons.IH [OF k(1) Cons.prems(2)] show ?thesis by (simp add: splice1_def)
  qed
qed

lemma send_keeps_mirror:
  assumes inv: "\<And>a b. mirrored d a b"
    and u: "find (\<lambda>x. uid x = uid u) (users d) = Some u"
  shows "mirrored (snd (sendConnectionRequest d u s now)) a b"
proof (cases "snd (sendConnectionRequest d u s now) = d")
  case True
  then show ?thesis by (simp add: inv)
next
  case False
  then obtain t where t: "find (\<lambda>x. uid x = castObjectId s) (users d) = Some t"
    by (auto simp: sendConnectionRequest_def Let_def User_findById_def split: option.splits if_splits)
  have ut: "uid t = castObjectId s" using t by (rule find_uid)
  let ?f1 = "\<lambda>x. x\<lparr>connectionRequests := connectionRequests x @ [\<lparr>cr_from = uid u, cr_sentAt = now\<rparr>]\<rparr>"
  let ?f2 = "\<lambda>x. x\<lparr>sentRequests := sentRequests x @ [\<lparr>sr_to = castObjectId s, sr_sentAt = now\<rparr>]\<rparr>"
  let ?n = "\<lparr>n_recipientId = s, n_senderId = uid u, n_type = ''CONNECTION_REQUEST'',
             n_title = ''New connection request'',
             n_message = nameOr (name u) ''Someone'' @ '' sent you a connection request'',
             n_data = [(''from'', uid u)], n_isRead = False, n_createdAt = now\<rparr>"
  let ?d2 = "update_user (uid u) ?f2 (update_user (uid t) ?f1 d)"
  from False t ut have res: "snd (sendConnectionRequest d u s now) = Notification_create ?n ?d2"
    by (auto simp: sendConnectionRequest_def Let_def User_findById_def split: if_splits)
  have sent: "hasSentRequestTo (userOf ?d2 x) y
                = (hasSentRequestTo (userOf d x) y \<or> (x = uid u \<and> y = castObjectId s))" for x y
    using u t ut
    by (auto simp: userOf_update_user stored_update_user hasSentRequestTo_def)
  have recv: "hasReceivedRequestFrom (userOf ?d2 y) x
                = (hasReceivedRequestFrom (userOf d y) x \<or> (y = castObjectId s \<and> x = uid u))" for x y
    using u t ut
    by (auto simp: userOf_update_user stored_update_user hasReceivedRequestFrom_def)
  show ?thesis
    using inv [of a b]
    by (auto simp: res mirrored_def userOf_Notification_create sent recv)
qed

lemma remove_keeps_mirror:
  assumes inv: "\<And>a b. mirrored d a b"
  shows "mirrored (snd (removeConnection d u s)) a b"
proof -
  have "sentRequests (userOf (snd (removeConnection d u s)) x) = sentRequests (userOf d x)
        \<and> connectionRequests (userOf (snd (removeConnection d u s)) x)
            = connectionRequests (userOf d x)" for x
    by (auto simp: removeConnection_def Let_def userOf_update_user split: option.splits)
  then show ?thesis
    using inv [of a b]
    by (simp add: mirrored_def hasSentRequestTo_def hasReceivedRequestFrom_def)
qed

lemma stored_canonical:
  "list_all (\<lambda>x. castObjectId (uid x) = uid x) xs \<Longrightarrow> find (\<lambda>x. uid x = i) xs = Some y
   \<Longrightarrow> castObjectId i = i"
  by (induction xs) (auto split: if_splits)

lemma accept_keeps_mirror:
  assumes inv: "\<And>a b. mirrored d a b"
    and r: "find (\<lambda>x. uid x = uid r) (users d) = Some r"
    and canon: "list_all (\<lambda>x. castObjectId (uid x) = uid x) (users d)"
  shows "mirrored (snd (respondToConnectionRequest d r s (Some ''accept'') now)) a b"
proof (cases "snd (respondToConnectionRequest d r s (Some ''accept'') now) = d")
  case True
  then show ?thesis by (simp add: inv)
next
  case False
  let ?g = "\<lambda>u. u\<lparr>connections := (if \<not> isConnectedTo u (uid r) then connections u @ [uid r]
                                     else connections u),
                     sentRequests := filter (\<lambda>q. sr_to q \<noteq> uid r) (sentRequests u)\<rparr>"
  let ?n = "\<lparr>n_recipientId = s, n_senderId = uid r, n_type = ''CONNECTION_ACCEPTED'',
             n_title = ''Connection request accepted'',
             n_message = nameOr (name r) ''Your connection'' @ '' accepted your request'',
             n_data = [(''acceptedBy'', uid r)], n_isRead = False, n_createdAt = now\<rparr>"
  from False obtain i where i: "findIndex (\<lambda>q. cr_from q = s) (connectionRequests r) = Some i"
    by (auto simp: respondToConnectionRequest_def Let_def split: option.splits if_splits)
  from False i have valid: "ObjectId_isValid s"
    by (auto simp: respondToConnectionRequest_def Let_def split: option.splits if_splits)
  let ?h = "\<lambda>u. u\<lparr>connectionRequests := splice1 i (connectionRequests r),
                     connections := (if \<not> isConnectedTo r s then connections r @ [castObjectId s]
                                     else connections r)\<rparr>"
  have ur: "userOf d (uid r) = r" using r by (rule userOf_stored)
  have spliced: "list_ex (\<lambda>q. cr_from q = x) (splice1 i (connectionRequests r))
                   = hasReceivedRequestFrom (userOf d (uid r)) x" if "x \<noteq> s" for x
    using list_ex_splice1 [OF i that] by (simp add: ur hasReceivedRequestFrom_def)
  have old: "hasSentRequestTo (userOf d a) b \<Longrightarrow> hasReceivedRequestFrom (userOf d b) a"
    using inv [of a b] by (simp add: mirrored_def)
  show ?thesis
  proof (cases "find (\<lambda>x. uid x = castObjectId s) (users d)")
    case None
    let ?d' = "update_user (uid r) ?h (Notification_create ?n d)"
    from None have res: "snd (respondToConnectionRequest d r s (Some ''accept'') now) = ?d'"
      using i valid by (simp add: respondToConnectionRequest_def Let_def User_findById_def)
    have nos: "\<not> hasSentRequestTo (userOf d s) y" for y
    proof (cases "find (\<lambda>x. uid x = s) (users d)")
      case None
      then show ?thesis by (rule no_user_nothing_sent)
    next
      case (Some x)
      with canon have "castObjectId s = s" by (rule stored_canonical)
      with Some \<open>find (\<lambda>x. uid x = castObjectId s) (users d) = None\<close> show ?thesis by simp
    qed
    have sent: "hasSentRequestTo (userOf ?d' x) y = hasSentRequestTo (userOf d x) y" for x y
      by (simp add: userOf_update_user userOf_Notification_create hasSentRequestTo_def)
    have recv: "hasReceivedRequestFrom (userOf ?d' y) x = hasReceivedRequestFrom (userOf d y) x"
      if "x \<noteq> s" for x y
      using r spliced [OF that]
      by (auto simp: userOf_update_user userOf_Notification_create users_Notification_create
          hasReceivedRequestFrom_def)
    show ?thesis
      unfolding mirrored_def res
    proof
      assume "hasSentRequestTo (userOf ?d' a) b"
      then have o: "hasSentRequestTo (userOf d a) b" by (simp add: sent)
      then have "a \<noteq> s" using nos by blast
      then show "hasReceivedRequestFrom (userOf ?d' b) a"
        using old [OF o] by (simp add: recv)
    qed
  next
    case (Some ru)
    have uru: "uid ru = castObjectId s" using Some by (rule find_uid)
    let ?d2 = "Notification_create ?n (update_user (uid ru) ?g d)"
    have sent2: "hasSentRequestTo (userOf ?d2 x) y \<Longrightarrow>
                   hasSentRequestTo (userOf d x) y \<and> \<not> (x = uid ru \<and> y = uid r)" for x y
      using Some uru
      by (auto simp: userOf_update_user userOf_Notification_create hasSentRequestTo_def
          list_ex_iff split: if_splits)
    have recv2: "hasReceivedRequestFrom (userOf ?d2 y) x = hasReceivedRequestFrom (userOf d y) x"
      for x y
      by (simp add: userOf_update_user userOf_Notification_create hasReceivedRequestFrom_def)
    show ?thesis
    proof (cases "uid ru = uid r")
      case True
      then have res: "snd (respondToConnectionRequest d r s (Some ''accept'') now) = ?d2"
        using i valid Some
        by (simp add: respondToConnectionRequest_def Let_def User_findById_def)
      show ?thesis
        unfolding mirrored_def res
      proof
        assume "hasSentRequestTo (userOf ?d2 a) b"
        then have "hasSentRequestTo (userOf d a) b" using sent2 by blast
        then show "hasReceivedRequestFrom (userOf ?d2 b) a"
          using old by (simp add: recv2)
      qed
    next
      case False
      let ?d3 = "update_user (uid r) ?h ?d2"
      from False have res: "snd (respondToConnectionRequest d r s (Some ''accept'') now) = ?d3"
        using i valid Some
        by (simp add: respondToConnectionRequest_def Let_def User_findById_def)
      have sent3: "hasSentRequestTo (userOf ?d3 x) y = hasSentRequestTo (userOf ?d2 x) y" for x y
        by (simp add: userOf_update_user hasSentRequestTo_def)
      have stored: "find (\<lambda>x. uid x = uid r) (users ?d2) \<noteq> None"
        using r by (simp add: users_Notification_create stored_update_user)
      have recv3: "hasReceivedRequestFrom (userOf ?d3 y) x = hasReceivedRequestFrom (userOf d y) x"
        if "x \<noteq> s \<or> y \<noteq> uid r" for x y
      proof (cases "y = uid r")
        case True
        with that have "x \<noteq> s" by simp
        then show ?thesis
          using stored True spliced [of x]
          by (simp add: userOf_update_user hasReceivedRequestFrom_def)
      next
        case False
        then show ?thesis
          by (simp add: userOf_update_user recv2)
      qed
      have nos: "hasSentRequestTo (userOf d s) y \<Longrightarrow> s = uid ru" for y
      proof (cases "find (\<lambda>x. uid x = s) (users d)")
        case None
        assume "hasSentRequestTo (userOf d s) y"
        with None show ?thesis using no_user_nothing_sent by blast
      next
        case (Some x)
        with canon have "castObjectId s = s" by (rule stored_canonical)
        with uru show ?thesis by simp
      qed
      show ?thesis
        unfolding mirrored_def res
      proof
        assume "hasSentRequestTo (userOf ?d3 a) b"
        then have "hasSentRequestTo (userOf ?d2 a) b" by (simp add: sent3)
        then have o: "hasSentRequestTo (userOf d a) b" and n: "\<not> (a = uid ru \<and> b = uid r)"
          using sent2 by blast+
        have "a \<noteq> s \<or> b \<noteq> uid r"
          using nos o n by blast
        then show "hasReceivedRequestFrom (userOf ?d3 b) a"
          using old [OF o] by (simp add: recv3)
      qed
    qed
  qed
qed

lemma uids_sendConnectionRequest:
  "map uid (users (snd (sendConnectionRequest d u s now))) = map uid (users d)"
  by (auto simp: sendConnectionRequest_def Let_def users_Notification_create map_uid_update_user
      split: option.splits)

lemma uids_respondToConnectionRequest:
  "map uid (users (snd (respondToConnectionRequest d u s action now))) = map uid (users d)"
  by (auto simp: respondToConnectionRequest_def Let_def users_Notification_create
      map_uid_update_user split: option.splits)

lemma uids_removeConnection:
  "map uid (users (snd (removeConnection d u s))) = map uid (users d)"
  by (auto simp: removeConnection_def Let_def map_uid_update_user split: option.splits)

lemma uids_request: "map uid (users (snd (request d c now))) = map uid (users d)"
  by (cases c)
     (auto simp: request_def uids_sendConnectionRequest uids_respondToConnectionRequest
       uids_removeConnection split: option.splits)

lemma canonical_uids:
  "list_all (\<lambda>x. castObjectId (uid x) = uid x) xs = list_all (\<lambda>i. castObjectId i = i) (map uid xs)"
  by (induction xs) simp_all

lemma request_keeps_mirror:
  assumes inv: "\<And>a b. mirrored d a b"
    and canon: "list_all (\<lambda>x. castObjectId (uid x) = uid x) (users d)"
    and c: "\<not> is_reject c"
  shows "mirrored (snd (request d c now)) a b"
proof (cases "find (\<lambda>x. uid x = actor c) (users d)")
  case None
  then show ?thesis by (simp add: request_def inv)
next
  case (Some u)
  then have "uid u = actor c" by (rule find_uid)
  with Some have u: "find (\<lambda>x. uid x = uid u) (users d) = Some u" by simp
  from c show ?thesis
  proof (cases c)
    case (SendRequest x y)
    with Some show ?thesis
      using send_keeps_mirror [of d u y now a b] inv u by (simp add: request_def)
  next
    case (Accept x y)
    with Some show ?thesis
      using accept_keeps_mirror [of d u y now a b] inv u canon by (simp add: request_def)
  next
    case (Remove x y)
    with Some show ?thesis
      using remove_keeps_mirror [of d u y a b] inv by (simp add: request_def)
  qed simp
qed

lemma requests_keep_mirror:
  assumes "\<And>a b. mirrored d a b"
    and "list_all (\<lambda>x. castObjectId (uid x) = uid x) (users d)"
    and "list_all (\<lambda>c. \<not> is_reject c) cs"
  shows "mirrored (requests d cs now) a b"
  using assms
proof (induction cs arbitrary: d now)
  case Nil
  then show ?case by simp
next
  case (Cons c cs)
  have 1: "\<And>a b. mirrored (snd (request d c now)) a b"
    using Cons.prems by (simp add: request_keeps_mirror)
  have 2: "list_all (\<lambda>x. castObjectId (uid x) = uid x) (users (snd (request d c now)))"
    using Cons.prems(2) by (simp add: canonical_uids uids_request)
  from Cons.prems(3) have 3: "list_all (\<lambda>c. \<not> is_reject c) cs" by simp
  show ?case
    using Cons.IH [OF 1 2 3] by simp
qed

lemma nothing_sent_mirrored:
  assumes "list_all (\<lambda>x. sentRequests x = []) (users d)"
  shows "mirrored d a b"
proof -
  have "sentRequests (userOf d a) = []"
  proof (cases "find (\<lambda>x. uid x = a) (users d)")
    case None
    then show ?thesis by (simp add: userOf_def)
  next
    case (Some x)
    then have "x \<in> set (users d)" by (auto simp: find_Some_iff)
    with assms have "sentRequests x = []" by (simp add: list_all_iff)
    with Some show ?thesis by (simp add: userOf_def)
  qed
  then show ?thesis by (simp add: mirrored_def hasSentRequestTo_def)
qed

text \<open>
  The stores reached from the two fresh users without a reject keep the mirror; after the
  reject of Alice's request her entry for Bob has none.
\<close>

lemma two_users_keep_mirror:
  "list_all (\<lambda>c. \<not> is_reject c) cs \<Longrightarrow> mirrored (requests two_users cs now) a b"
proof (rule requests_keep_mirror)
  show "mirrored two_users a b" for a b
    by (rule nothing_sent_mirrored) (simp add: two_users_def member_def)
  show "list_all (\<lambda>x. castObjectId (uid x) = uid x) (users two_users)"
    by code_simp
qed

lemma reject_breaks_mirror:
  "\<not> mirrored (requests two_users [SendRequest alice bob, Reject bob alice] 0) alice bob"
  by code_simp

text \<open>The example store is the one the route produces from two fresh users.\<close>

lemma alice_asked_bob_reached:
  "requests two_users [SendRequest alice bob] 0 = alice_asked_bob"
  by code_simp

text \<open>
  C2: the pair is to be in at most one of the states connected, a-to-b pending and
  b-to-a pending. The reject branch splices the request out of the receiver's
  \<open>connectionRequests\<close> and leaves the sender's \<open>sentRequests\<close> entry, which only the
  accept branch filters. Alice asks Bob, Bob rejects, Bob asks Alice: Alice's stale entry
  says Alice-to-Bob is pending while Bob-to-Alice is pending too, each of the two seeing
  the status "requested"; and when Alice accepts, the pair is connected with the stale
  entry still there.
\<close>

theorem reject_keeps_sent_request:
  "map sr_to (sentRequests (userOf (requests two_users [SendRequest alice bob, Reject bob alice] 0) alice))
     = [bob]
   \<and> connectionRequests (userOf (requests two_users [SendRequest alice bob, Reject bob alice] 0) bob)
     = []
   \<and> statesOf (requests two_users
                  [SendRequest alice bob, Reject bob alice, SendRequest bob alice] 0) alice bob
     = [''a-to-b pending'', ''b-to-a pending'']
   \<and> getConnectionStatus (userOf (requests two_users
                  [SendRequest alice bob, Reject bob alice, SendRequest bob alice] 0) alice) bob
     = ''requested''
   \<and> getConnectionStatus (userOf (requests two_users
                  [SendRequest alice bob, Reject bob alice, SendRequest bob alice] 0) bob) alice
     = ''requested''
   \<and> statesOf (requests two_users
                  [SendRequest alice bob, Reject bob alice, SendRequest bob alice,
                   Accept alice bob] 0) alice bob
     = [''connected'', ''a-to-b pending'']"
  by code_simp

section \<open>Creating a notification\<close>

text \<open>
  C5: every type of the enumerated set is to be accepted. \<open>POST_SHARED\<close> is in the set,
  and a request to create a notification of that type, with a recipient, a title and a
  message, is answered 400 "Valid notification type required" and stores nothing: the
  handler's list spells the type \<open>POST_SHARE\<close>.
\<close>

theorem createNotification_refuses_POST_SHARED:
  "list_ex (\<lambda>t. t = ''POST_SHARED'') notificationTypes
   \<and> createNotification d u share_body now = ((400, ''Valid notification type required''), d)"
  by (simp add: createNotification_def share_body_def validTypes_def notificationTypes_def
      bob_def)

theorem createNotification_refuses_POST_SHARED_witness:
  "createNotification two_users (member alice ''Alice'') share_body 7
     = ((400, ''Valid notification type required''), two_users)
   \<and> truthy (b_recipientId share_body) \<and> truthy (b_title share_body)
   \<and> truthy (b_message share_body)"
  using createNotification_refuses_POST_SHARED [of two_users "member alice ''Alice''" 7]
  by (simp add: share_body_def bob_def)

text \<open>
  The rest of the validation is as the claim has it: an accepted request has a type of the
  handler's list and a title and a message that are not blank, and a refused one stores
  nothing.
\<close>

lemma createNotification_accepted:
  assumes "fst (fst (createNotification d u body now)) = 201"
  shows "array_includes validTypes (b_type body)
       \<and> truthy (b_title body) \<and> trim (the (b_title body)) \<noteq> []
       \<and> truthy (b_message body) \<and> trim (the (b_message body)) \<noteq> []"
  using assms by (simp add: createNotification_def Let_def split: if_splits)

lemma createNotification_refused_unchanged:
  assumes "fst (fst (createNotification d u body now)) \<noteq> 201"
  shows "snd (createNotification d u body now) = d"
  using assms by (auto simp: createNotification_def Let_def split: if_splits)

section \<open>Sending a message\<close>

text \<open>
  The bound on the content holds: an accepted message has between 1 and 2000 characters,
  and a longer one is answered 400 with the store unchanged.
\<close>

lemma sendMessage_accepted_content:
  assumes "fst (fst (sendMessage d u body newId now)) = 201"
  shows "\<exists>c. mb_content body = Some c \<and> 1 \<le> length c \<and> length c \<le> 2000"
proof (cases "mb_content body")
  case None
  with assms show ?thesis by (simp add: sendMessage_def Let_def split: if_splits)
next
  case (Some c)
  have "c \<noteq> [] \<and> length c \<le> 2000"
  proof (rule ccontr)
    assume "\<not> (c \<noteq> [] \<and> length c \<le> 2000)"
    with Some have "fst (fst (sendMessage d u body newId now)) = 400"
      by (auto simp: sendMessage_def Let_def)
    with assms show False by simp
  qed
  with Some show ?thesis by (cases c) simp_all
qed

lemma sendMessage_long_content_refused:
  assumes "mb_content body = Some c" and "length c > 2000" and "truthy (mb_receiverId body)"
  shows "sendMessage d u body newId now
           = ((400, ''Message content must be between 1 and 2000 characters''), d)"
  using assms by (simp add: sendMessage_def Let_def)

text \<open>
  C7: a message that is not text is to be refused when it has no media URL. Alice, connected
  to Bob, sends an image message without \<open>mediaUrl\<close>: the handler tests the URL only when
  one is present, the schema's validator is not asked about an absent value, and the
  message is stored and answered 201.
\<close>

theorem sendMessage_image_without_mediaUrl:
  "sendMessage connected_users alice_connected image_without_url ''64d4f0000000000000000004'' 5
     = ((201, ''Message sent successfully''),
        connected_users
         \<lparr>messages :=
            [\<lparr>mid = ''64d4f0000000000000000004'', senderId = alice, receiverId = bob,
              content = ''photo'', messageType = ''image'', mediaUrl = None, isRead = False,
              readAt = None, isDeleted = False, deletedAt = None, deletedBy = [],
              replyTo = None, reactions = [], createdAt = 5\<rparr>],
          notifications :=
            [\<lparr>n_recipientId = bob, n_senderId = alice, n_type = ''MESSAGE'',
              n_title = ''New message'', n_message = ''photo'',
              n_data = [(''senderId'', alice)], n_isRead = False, n_createdAt = 5\<rparr>]\<rparr>)"
  by code_simp

theorem sendMessage_image_without_mediaUrl_witness:
  "mb_messageType image_without_url = Some ''image''
   \<and> mb_mediaUrl image_without_url = None
   \<and> fst (sendMessage connected_users alice_connected image_without_url
              ''64d4f0000000000000000004'' 5) = (201, ''Message sent successfully'')
   \<and> map mediaUrl (messages (snd (sendMessage connected_users alice_connected image_without_url
              ''64d4f0000000000000000004'' 5))) = [None]"
  using sendMessage_image_without_mediaUrl
  by (simp add: image_without_url_def)

end
